theory Spec2Isabelle
  imports Main "HOL-Library.Sublist"
begin

section \<open>Strings\<close>

text \<open>
  A JavaScript string is a sequence of UTF-16 code units. The model keeps the code units
  U+0000 to U+00FF, one per \<^typ>\<open>char\<close>. In that range \<open>String.prototype.trim\<close> and the
  regular expression class \<open>\s\<close> agree on the white space below, and
  \<open>toLowerCase\<close> maps one code unit to one code unit.
\<close>

definition is_space :: "char \<Rightarrow> bool" where
  "is_space c = (of_char c \<in> {9, 10, 11, 12, 13, 32, 160 :: nat})"

definition trim :: "string \<Rightarrow> string" where
  "trim s = rev (dropWhile is_space (rev (dropWhile is_space s)))"

definition to_lower :: "char \<Rightarrow> char" where
  "to_lower c =
     (let n = (of_char c :: nat)
      in if (65 \<le> n \<and> n \<le> 90) \<or> (192 \<le> n \<and> n \<le> 222 \<and> n \<noteq> 215)
         then char_of (n + 32) else c)"

definition toLowerCase :: "string \<Rightarrow> string" where
  "toLowerCase s = map to_lower s"

text \<open>\<open>haystack.includes(needle)\<close>: the needle starts at some position of the haystack.\<close>

fun str_includes :: "string \<Rightarrow> string \<Rightarrow> bool" where
  "str_includes [] needle = (needle = [])"
| "str_includes (c # cs) needle = (prefix needle (c # cs) \<or> str_includes cs needle)"

text \<open>
  \<open>s.split(/[\s\n]/)\<close>: the pieces of \<open>s\<close> between single white-space code units. The
  result is never empty: the empty string splits into one empty piece.
\<close>

fun split_ws :: "string \<Rightarrow> string list" where
  "split_ws [] = [[]]"
| "split_ws (c # cs) =
     (if is_space c then [] # split_ws cs
      else (case split_ws cs of [] \<Rightarrow> [[c]] | w # ws \<Rightarrow> (c # w) # ws))"

section \<open>Content classifier (detector.ts)\<close>

definition MERMAID_KEYWORDS :: "string list" where
  "MERMAID_KEYWORDS =
     [''graph'', ''flowchart'', ''sequencediagram'', ''classdiagram'', ''statediagram'',
      ''statediagram-v2'', ''erdiagram'', ''journey'', ''gantt'', ''pie'', ''quadrantchart'',
      ''requirementdiagram'', ''gitgraph'', ''mindmap'', ''timeline'', ''zenuml'',
      ''sankey-beta'', ''xychart-beta'', ''block-beta'']"

text \<open>
  \<open>isMermaidContent\<close>. Index 0 of the split is read as JavaScript reads it: an empty
  array would give \<open>undefined\<close>, which no keyword equals.
\<close>

definition isMermaidContent :: "string \<Rightarrow> bool" where
  "isMermaidContent content =
     (let trimmed = toLowerCase (trim content)
      in case split_ws trimmed of
           [] \<Rightarrow> False
         | firstWord # _ \<Rightarrow> firstWord \<in> set MERMAID_KEYWORDS)"

text \<open>
  The classifier as the specification words it: the first white-space delimited token of
  the trimmed, lower-cased text is one of the keywords.
\<close>

definition first_token :: "string \<Rightarrow> string" where
  "first_token s = takeWhile (\<lambda>c. \<not> is_space c) (dropWhile is_space s)"

definition looksLikeDiagram_spec :: "string \<Rightarrow> bool" where
  "looksLikeDiagram_spec text = (first_token (toLowerCase (trim text)) \<in> set MERMAID_KEYWORDS)"

text \<open>Two texts that differ in letter case only.\<close>

definition same_up_to_case :: "string \<Rightarrow> string \<Rightarrow> bool" where
  "same_up_to_case s t = (toLowerCase s = toLowerCase t)"

section \<open>Platform registry (detector.ts)\<close>

datatype Platform = ChatGPT | Claude | Gemini | Grok

datatype detection = ClassName | LanguageLabel | ContentBased

text \<open>
  \<open>detectPlatform\<close> walks \<open>Object.entries(selectors.platforms)\<close> in insertion order and
  reads only the \<open>hostname\<close> of each entry, so the table is a list of keys with their
  host names.
\<close>

fun detectPlatform_in :: "(Platform \<times> string) list \<Rightarrow> string \<Rightarrow> Platform option" where
  "detectPlatform_in [] hostname = None"
| "detectPlatform_in ((key, host) # rest) hostname =
     (if str_includes hostname host then Some key else detectPlatform_in rest hostname)"

text \<open>
  Modelled from the spec: \<open>config/selectors.json\<close> is not among the sources. The host
  names are the ones the repository's plan document, its README and the detector tests
  give, in the order of the \<open>Platform\<close> type, which is also the order of the README's
  excerpt of the file.
\<close>

definition platform_hostnames :: "(Platform \<times> string) list" where
  "platform_hostnames =
     [(ChatGPT, ''chatgpt.com''), (Claude, ''claude.ai''),
      (Gemini, ''gemini.google.com''), (Grok, ''grok.com'')]"

definition detectPlatform :: "string \<Rightarrow> Platform option" where
  "detectPlatform hostname = detectPlatform_in platform_hostnames hostname"

section \<open>Document model\<close>

text \<open>
  An element carries its identity (\<open>ref\<close>, what \<open>===\<close> compares), its local name, its
  class tokens, \<open>style.display\<close>, its other attributes and its children. The document is
  the list of its top-level nodes.
\<close>

datatype node =
    Element nat string "string list" string "(string \<times> string) list" "node list"
  | Text string

text \<open>
  An element as the code holds it: the node together with its ancestors, nearest first.
  A selector is given by the elements it matches.
\<close>

type_synonym handle = "node \<times> node list"
type_synonym selector = "handle \<Rightarrow> bool"

fun node_ref :: "node \<Rightarrow> nat option" where
  "node_ref (Element r t c d a k) = Some r"
| "node_ref (Text s) = None"

fun localName :: "node \<Rightarrow> string" where
  "localName (Element r t c d a k) = t"
| "localName (Text s) = ''#text''"

fun classList :: "node \<Rightarrow> string list" where
  "classList (Element r t c d a k) = c"
| "classList (Text s) = []"

fun display :: "node \<Rightarrow> string" where
  "display (Element r t c d a k) = d"
| "display (Text s) = []"

fun childNodes :: "node \<Rightarrow> node list" where
  "childNodes (Element r t c d a k) = k"
| "childNodes (Text s) = []"

fun getAttribute :: "node \<Rightarrow> string \<Rightarrow> string option" where
  "getAttribute (Element r t c d a k) name = map_of a name"
| "getAttribute (Text s) name = None"

definition hasAttribute :: "node \<Rightarrow> string \<Rightarrow> bool" where
  "hasAttribute n name = (getAttribute n name \<noteq> None)"

fun setAttribute :: "string \<Rightarrow> string \<Rightarrow> node \<Rightarrow> node" where
  "setAttribute name v (Element r t c d a k) =
     Element r t c d ((name, v) # filter (\<lambda>kv. fst kv \<noteq> name) a) k"
| "setAttribute name v (Text s) = Text s"

fun set_display :: "string \<Rightarrow> node \<Rightarrow> node" where
  "set_display v (Element r t c d a k) = Element r t c v a k"
| "set_display v (Text s) = Text s"

fun set_childNodes :: "node list \<Rightarrow> node \<Rightarrow> node" where
  "set_childNodes ks (Element r t c d a k) = Element r t c d a ks"
| "set_childNodes ks (Text s) = Text s"

fun appendChild :: "node \<Rightarrow> node \<Rightarrow> node" where
  "appendChild child (Element r t c d a k) = Element r t c d a (k @ [child])"
| "appendChild child (Text s) = Text s"

fun classList_add :: "string \<Rightarrow> node \<Rightarrow> node" where
  "classList_add tok (Element r t c d a k) =
     Element r t (if tok \<in> set c then c else c @ [tok]) d a k"
| "classList_add tok (Text s) = Text s"

fun textContent :: "node \<Rightarrow> string" where
  "textContent (Text s) = s"
| "textContent (Element r t c d a k) = concat (map textContent k)"

text \<open>Assigning \<open>textContent\<close>: one text node, or no child for the empty string.\<close>

definition set_textContent :: "string \<Rightarrow> node \<Rightarrow> node" where
  "set_textContent s n = set_childNodes (if s = [] then [] else [Text s]) n"

text \<open>The elements below a node, itself first, in document order, each with its ancestors.\<close>

fun elements_of :: "node list \<Rightarrow> node \<Rightarrow> handle list" where
  "elements_of anc (Text s) = []"
| "elements_of anc (Element r t c d a k) =
     (Element r t c d a k, anc) # concat (map (elements_of (Element r t c d a k # anc)) k)"

definition all_elements :: "node list \<Rightarrow> handle list" where
  "all_elements doc = concat (map (elements_of []) doc)"

definition descendants :: "handle \<Rightarrow> handle list" where
  "descendants h = concat (map (elements_of (fst h # snd h)) (childNodes (fst h)))"

fun inclusive_ancestors :: "handle \<Rightarrow> handle list" where
  "inclusive_ancestors (n, []) = [(n, [])]"
| "inclusive_ancestors (n, p # rest) = (n, p # rest) # inclusive_ancestors (p, rest)"

definition parentElement :: "handle \<Rightarrow> handle option" where
  "parentElement h = (case snd h of [] \<Rightarrow> None | p # rest \<Rightarrow> Some (p, rest))"

definition closest :: "selector \<Rightarrow> handle \<Rightarrow> handle option" where
  "closest sel h = find sel (inclusive_ancestors h)"

definition querySelectorAll :: "selector \<Rightarrow> node list \<Rightarrow> handle list" where
  "querySelectorAll sel doc = filter sel (all_elements doc)"

text \<open>\<open>element.querySelector\<close>: the first descendant that matches.\<close>

definition querySelector :: "selector \<Rightarrow> handle \<Rightarrow> handle option" where
  "querySelector sel h = find sel (descendants h)"

text \<open>The element with a given identity, where it stands in the document now.\<close>

definition find_element :: "node list \<Rightarrow> nat \<Rightarrow> handle option" where
  "find_element doc r = find (\<lambda>h. node_ref (fst h) = Some r) (all_elements doc)"

text \<open>\<open>target.replaceWith(new)\<close> in the document; nothing happens when the target is not there.\<close>

fun replace_in :: "nat \<Rightarrow> node \<Rightarrow> node \<Rightarrow> node" where
  "replace_in r new (Text s) = Text s"
| "replace_in r new (Element r' t c d a k) =
     (if r' = r then new else Element r' t c d a (map (replace_in r new) k))"

definition replaceWith :: "handle \<Rightarrow> node \<Rightarrow> node list \<Rightarrow> node list" where
  "replaceWith target new doc =
     (case node_ref (fst target) of
        None \<Rightarrow> doc
      | Some r \<Rightarrow> map (replace_in r new) doc)"

text \<open>
  \<open>querySelectorAll(sel).forEach(el => el.remove())\<close>: the matches are taken on the
  document as it is before the first removal, then each is taken out with its subtree.
\<close>

fun remove_matches :: "selector \<Rightarrow> node list \<Rightarrow> node \<Rightarrow> node list" where
  "remove_matches sel anc (Text s) = [Text s]"
| "remove_matches sel anc (Element r t c d a k) =
     (if sel (Element r t c d a k, anc) then []
      else [Element r t c d a
              (concat (map (remove_matches sel (Element r t c d a k # anc)) k))])"

definition remove_all :: "selector \<Rightarrow> node list \<Rightarrow> node list" where
  "remove_all sel doc = concat (map (remove_matches sel []) doc)"

subsection \<open>The selectors the code writes out\<close>

definition sel_processed :: selector where
  \<comment> \<open>\<open>[data-mpr-processed="true"]\<close>\<close>
  "sel_processed h = (getAttribute (fst h) ''data-mpr-processed'' = Some ''true'')"

definition sel_pre_code :: selector where
  \<comment> \<open>\<open>pre code\<close>\<close>
  "sel_pre_code h =
     (localName (fst h) = ''code'' \<and> list_ex (\<lambda>a. localName a = ''pre'') (snd h))"

definition sel_tag :: "string \<Rightarrow> selector" where
  "sel_tag t h = (localName (fst h) = t)"

definition sel_id :: "string \<Rightarrow> selector" where
  \<comment> \<open>\<open>#name\<close>\<close>
  "sel_id name h = (getAttribute (fst h) ''id'' = Some name)"

definition sel_id_prefix :: "string \<Rightarrow> selector" where
  \<comment> \<open>\<open>[id^="p"]\<close>; an empty \<open>p\<close> matches nothing\<close>
  "sel_id_prefix p h =
     (case getAttribute (fst h) ''id'' of
        None \<Rightarrow> False
      | Some v \<Rightarrow> p \<noteq> [] \<and> prefix p v)"

definition sel_error_svg :: "string \<Rightarrow> selector" where
  \<comment> \<open>\<open>svg[aria-roledescription="error"]#name\<close>\<close>
  "sel_error_svg name h =
     (localName (fst h) = ''svg'' \<and>
      getAttribute (fst h) ''aria-roledescription'' = Some ''error'' \<and>
      getAttribute (fst h) ''id'' = Some name)"

section \<open>Block detector (detector.ts)\<close>

record PlatformConfig =
  platform :: Platform
  codeBlockSelector :: selector
  wrapperSelector :: selector
  detection :: detection
  languageLabelSelector :: "selector option"
  previewButtonSelector :: "selector option"

text \<open>
  \<open>config.languageLabelSelector!\<close>: when the field is absent, \<open>querySelector\<close> receives
  \<open>undefined\<close>, which it reads as the type selector \<open>undefined\<close>.
\<close>

definition label_selector :: "PlatformConfig \<Rightarrow> selector" where
  "label_selector config =
     (case languageLabelSelector config of
        None \<Rightarrow> sel_tag ''undefined''
      | Some sel \<Rightarrow> sel)"

definition findUnprocessedMermaidBlocks :: "PlatformConfig \<Rightarrow> node list \<Rightarrow> handle list" where
  "findUnprocessedMermaidBlocks config doc =
     (if detection config = ClassName then
        filter (\<lambda>el. closest sel_processed el = None)
          (querySelectorAll (codeBlockSelector config) doc)
      else if detection config = ContentBased then
        filter (\<lambda>el.
            if closest sel_processed el \<noteq> None then False
            else isMermaidContent (textContent (fst el)))
          (querySelectorAll (codeBlockSelector config) doc)
      else if detection config = LanguageLabel then
        filter (\<lambda>wrapper.
            if hasAttribute (fst wrapper) ''data-mpr-processed'' then False
            else if closest sel_processed wrapper \<noteq> None then False
            else (case querySelector (label_selector config) wrapper of
                    None \<Rightarrow> False
                  | Some labelEl \<Rightarrow> toLowerCase (trim (textContent (fst labelEl))) = ''mermaid''))
          (querySelectorAll (wrapperSelector config) doc)
      else [])"

text \<open>
  The processed marker as the specification words it: the attribute
  \<open>data-mpr-processed="true"\<close> on the element itself or on one of its ancestors.
\<close>

definition carries_processed_marker :: "handle \<Rightarrow> bool" where
  "carries_processed_marker h =
     list_ex (\<lambda>n. getAttribute n ''data-mpr-processed'' = Some ''true'') (fst h # snd h)"

section \<open>Error cleanup (renderer.ts)\<close>

definition is_digit :: "char \<Rightarrow> bool" where
  "is_digit c = (48 \<le> (of_char c :: nat) \<and> (of_char c :: nat) \<le> 57)"

definition name_char :: "char \<Rightarrow> bool" where
  "name_char c =
     (let n = (of_char c :: nat)
      in (97 \<le> n \<and> n \<le> 122) \<or> (65 \<le> n \<and> n \<le> 90) \<or> (48 \<le> n \<and> n \<le> 57) \<or>
         n = 45 \<or> n = 95 \<or> 128 \<le> n)"

text \<open>
  Texts that are CSS identifiers as they stand: name characters only, no digit first, and
  no digit right after a leading hyphen. Other texts may be identifiers too, through
  escapes, or selectors of their own; nothing is said about them here.
\<close>

definition css_ident :: "string \<Rightarrow> bool" where
  "css_ident s =
     (case s of
        [] \<Rightarrow> False
      | c # cs \<Rightarrow>
          list_all name_char s \<and>
          (if c = CHR ''-'' then (case cs of [] \<Rightarrow> False | c2 # _ \<Rightarrow> \<not> is_digit c2)
           else \<not> is_digit c))"

definition css_string_ok :: "string \<Rightarrow> bool" where
  \<comment> \<open>the text can stand between double quotes as it is\<close>
  "css_string_ok s = list_all (\<lambda>c. (of_char c :: nat) \<notin> {34, 92, 10, 12, 13}) s"

text \<open>
  The four selector texts of \<open>cleanupMermaidErrorElements\<close>, as its template literals
  build them from the render id; \<open>dq\<close> is the double quote.
\<close>

definition dq :: string where
  "dq = [char_of (34 :: nat)]"

definition errorSelectors :: "string \<Rightarrow> string list" where
  "errorSelectors renderId =
     [''#d'' @ renderId,
      ''#'' @ renderId,
      ''[id^='' @ dq @ ''d'' @ renderId @ dq @ '']'',
      ''svg[aria-roledescription='' @ dq @ ''error'' @ dq @ '']#'' @ renderId]"

text \<open>
  \<open>document.querySelectorAll\<close> reads a selector text: the result is the selector, or
  \<open>None\<close> for the syntax error it throws, which the code catches and ignores. How
  texts are read is the browser's business and a parameter here.
\<close>

type_synonym selector_reader = "string \<Rightarrow> selector option"

definition cleanupMermaidErrorElements :: "selector_reader \<Rightarrow> string \<Rightarrow> node list \<Rightarrow> node list" where
  "cleanupMermaidErrorElements reader renderId doc =
     fold (\<lambda>selector d. case reader selector of None \<Rightarrow> d | Some sel \<Rightarrow> remove_all sel d)
       (errorSelectors renderId) doc"

text \<open>
  What is assumed of a reader where a property needs it: it reads \<open>#name\<close> and
  \<open>svg[aria-roledescription="error"]#name\<close> as written when \<open>name\<close> is an identifier as
  it stands, and \<open>[id^="v"]\<close> as written when \<open>v\<close> can stand between the quotes, as a
  document in no-quirks mode does (ids are compared exactly, case included).
\<close>

definition reads_id_selectors :: "selector_reader \<Rightarrow> bool" where
  "reads_id_selectors reader =
     ((\<forall>name. css_ident name \<longrightarrow>
         reader (''#'' @ name) = Some (sel_id name) \<and>
         reader (''svg[aria-roledescription='' @ dq @ ''error'' @ dq @ '']#'' @ name) =
           Some (sel_error_svg name)) \<and>
      (\<forall>v. css_string_ok v \<longrightarrow>
         reader (''[id^='' @ dq @ v @ dq @ '']'') = Some (sel_id_prefix v)))"

text \<open>What a cleanup for \<open>renderId\<close> is to take out, as the specification words it.\<close>

definition polluting :: "string \<Rightarrow> node \<Rightarrow> bool" where
  "polluting renderId n =
     (case getAttribute n ''id'' of
        None \<Rightarrow> False
      | Some v \<Rightarrow> v = renderId \<or> prefix (CHR ''d'' # renderId) v)"

section \<open>Error formatting (errorHandler.ts)\<close>

text \<open>A thrown value, as far as \<open>errorToString\<close> tells values apart.\<close>

datatype js_value = ErrorObject string | JsNull | JsUndefined | OtherValue string

record ParsedError =
  userMessage :: string
  details :: "string option"
  originalError :: string

fun errorToString :: "js_value \<Rightarrow> string" where
  "errorToString (ErrorObject message) = message"
| "errorToString JsNull = ''null''"
| "errorToString JsUndefined = ''undefined''"
| "errorToString (OtherValue s) = s"

text \<open>\<open>/Parse error on line (\d+)/i\<close>: the digits of the leftmost match.\<close>

fun parse_error_line :: "string \<Rightarrow> string option" where
  "parse_error_line [] = None"
| "parse_error_line (c # cs) =
     (let digits = takeWhile is_digit (drop 20 (c # cs))
      in if toLowerCase (take 20 (c # cs)) = ''parse error on line '' \<and> digits \<noteq> []
         then Some digits else parse_error_line cs)"

definition matches_ci :: "string \<Rightarrow> string \<Rightarrow> bool" where
  \<comment> \<open>a case-insensitive search for a lower-case pattern\<close>
  "matches_ci pattern s = str_includes (toLowerCase s) pattern"

definition parseErrorMessage :: "js_value \<Rightarrow> ParsedError" where
  "parseErrorMessage error =
     (let originalError = errorToString error
      in case parse_error_line originalError of
           Some line \<Rightarrow>
             \<lparr>userMessage = ''Failed to render diagram'',
              details = Some (''Syntax error on line '' @ line),
              originalError = originalError\<rparr>
         | None \<Rightarrow>
             if matches_ci ''unknown diagram type'' originalError then
               \<lparr>userMessage = ''Failed to render diagram'',
                details = Some ''Unsupported diagram type'',
                originalError = originalError\<rparr>
             else if matches_ci ''syntax error in text'' originalError then
               \<lparr>userMessage = ''Failed to render diagram'',
                details = Some ''Syntax error in diagram'',
                originalError = originalError\<rparr>
             else
               \<lparr>userMessage = ''Failed to render diagram'',
                details = None,
                originalError = originalError\<rparr>)"

definition createElement :: "nat \<Rightarrow> string \<Rightarrow> node" where
  "createElement r tag = Element r tag [] [] [] []"

fun set_className :: "string list \<Rightarrow> node \<Rightarrow> node" where
  "set_className cs (Element r t c d a k) = Element r t cs d a k"
| "set_className cs (Text s) = Text s"

text \<open>\<open>createErrorElement\<close>; the four elements it creates take the identities from \<open>r\<close> on.\<close>

definition createErrorElement :: "nat \<Rightarrow> ParsedError \<Rightarrow> node" where
  "createErrorElement r parsedError =
     (let container = set_className [''mpr-error''] (createElement r ''div'');
          title = set_textContent (userMessage parsedError)
                    (set_className [''mpr-error-title''] (createElement (r + 1) ''div''));
          container = appendChild title container;
          detailsEl = set_className [''mpr-error-details''] (createElement (r + 2) ''div'');
          detailsEl = (case details parsedError of
                         None \<Rightarrow> set_display ''none'' detailsEl
                       | Some d \<Rightarrow> if d = [] then set_display ''none'' detailsEl
                                   else set_textContent d detailsEl);
          container = appendChild detailsEl container;
          hint = set_textContent ''Check the source code below''
                   (set_className [''mpr-error-hint''] (createElement (r + 3) ''div''));
          container = appendChild hint container
      in container)"

section \<open>Toggle button (toggle.ts)\<close>

text \<open>
  The button with the two elements its listener holds and the listener's variable
  \<open>showingSource\<close>. The play icon U+25B6 lies outside the code units of the model and is
  written as its three UTF-8 bytes.
\<close>

record toggle =
  sourceEl :: node
  renderedEl :: node
  button :: node
  showingSource :: bool

definition play_icon :: string where
  "play_icon = [char_of (226 :: nat), char_of (150 :: nat), char_of (182 :: nat)]"

definition createToggleButton :: "nat \<Rightarrow> node \<Rightarrow> node \<Rightarrow> bool \<Rightarrow> toggle" where
  "createToggleButton r source rendered initialShowSource =
     (let b = set_className [''mpr-toggle''] (createElement r ''button'');
          b = setAttribute ''aria-label'' ''Toggle between source code and diagram'' b
      in if initialShowSource then
           \<lparr>sourceEl = set_display ''block'' source,
            renderedEl = set_display ''block'' rendered,
            button = setAttribute ''title'' ''Show diagram'' (set_textContent play_icon b),
            showingSource = initialShowSource\<rparr>
         else
           \<lparr>sourceEl = source,
            renderedEl = rendered,
            button = setAttribute ''title'' ''Show source code'' (set_textContent ''{ }'' b),
            showingSource = initialShowSource\<rparr>)"

definition click :: "toggle \<Rightarrow> toggle" where
  "click t =
     (let showing = \<not> showingSource t
      in if showing then
           \<lparr>sourceEl = set_display ''block'' (sourceEl t),
            renderedEl = set_display ''none'' (renderedEl t),
            button = setAttribute ''title'' ''Show diagram'' (set_textContent play_icon (button t)),
            showingSource = showing\<rparr>
         else
           \<lparr>sourceEl = set_display ''none'' (sourceEl t),
            renderedEl = set_display ''block'' (renderedEl t),
            button = setAttribute ''title'' ''Show source code'' (set_textContent ''{ }'' (button t)),
            showingSource = showing\<rparr>)"

fun clicks :: "nat \<Rightarrow> toggle \<Rightarrow> toggle" where
  "clicks 0 t = t"
| "clicks (Suc n) t = click (clicks n t)"

definition visible :: "node \<Rightarrow> bool" where
  "visible n = (display n \<noteq> ''none'')"

definition exactly_one_visible :: "toggle \<Rightarrow> bool" where
  "exactly_one_visible t = (visible (sourceEl t) \<noteq> visible (renderedEl t))"

section \<open>Transform engine (renderer.ts)\<close>

text \<open>
  What \<open>createPreservingWrapper\<close> returns. The container holds its children by reference,
  so the record keeps each child once: the source region, the display region, and what
  is appended after them. \<open>container\<close> reads the container element off the record.
\<close>

record wrapper =
  containerRef :: nat
  sourceWrapper :: node
  renderedDiv :: node
  appended :: "node list"

definition container :: "wrapper \<Rightarrow> node" where
  "container w =
     setAttribute ''data-mpr-processed'' ''true''
       (set_childNodes ([sourceWrapper w, renderedDiv w] @ appended w)
          (set_className [''mpr-container''] (createElement (containerRef w) ''div'')))"

definition createPreservingWrapper :: "nat \<Rightarrow> string \<Rightarrow> wrapper" where
  "createPreservingWrapper r sourceCode =
     (let sourceWrapper = set_display ''none''
                            (set_className [''mpr-source''] (createElement (r + 1) ''pre''));
          sourceCodeEl = set_textContent sourceCode
                           (set_className [''language-mermaid''] (createElement (r + 2) ''code''));
          sourceWrapper = appendChild sourceCodeEl sourceWrapper;
          renderedDiv = set_className [''mpr-rendered''] (createElement (r + 3) ''div'')
      in \<lparr>containerRef = r, sourceWrapper = sourceWrapper, renderedDiv = renderedDiv,
          appended = []\<rparr>)"

definition extractSourceCode :: "handle \<Rightarrow> PlatformConfig \<Rightarrow> string" where
  "extractSourceCode element config =
     (if platform config = Grok then
        (case querySelector sel_pre_code element of
           None \<Rightarrow> []
         | Some codeEl \<Rightarrow> trim (textContent (fst codeEl)))
      else trim (textContent (fst element)))"

definition getWrapperToReplace :: "handle \<Rightarrow> PlatformConfig \<Rightarrow> handle" where
  "getWrapperToReplace element config =
     (if platform config = Grok then element
      else (case parentElement element of
              Some parent \<Rightarrow> parent
            | None \<Rightarrow> element))"

subsection \<open>The earlier renderer (the second renderer.ts among the sources)\<close>

definition createPreservingWrapper_v1 :: "nat \<Rightarrow> string \<Rightarrow> wrapper" where
  "createPreservingWrapper_v1 r sourceCode =
     (let sourceWrapper = set_display ''none''
                            (set_className [''mpr-source''] (createElement (r + 1) ''pre''));
          sourceCodeEl = set_textContent sourceCode
                           (set_className [''language-mermaid''] (createElement (r + 2) ''code''));
          sourceWrapper = appendChild sourceCodeEl sourceWrapper;
          renderedDiv = set_className [''mpr-rendered''] (createElement (r + 3) ''div'')
      in \<lparr>containerRef = r, sourceWrapper = sourceWrapper, renderedDiv = renderedDiv,
          appended = []\<rparr>)"

definition extractSourceCode_v1 :: "handle \<Rightarrow> PlatformConfig \<Rightarrow> string" where
  "extractSourceCode_v1 element config =
     (if platform config = Grok then
        (case querySelector sel_pre_code element of
           None \<Rightarrow> []
         | Some codeEl \<Rightarrow> trim (textContent (fst codeEl)))
      else trim (textContent (fst element)))"

definition getWrapperToReplace_v1 :: "handle \<Rightarrow> PlatformConfig \<Rightarrow> handle" where
  "getWrapperToReplace_v1 element config =
     (if platform config = Grok then element
      else (case parentElement element of
              Some parent \<Rightarrow> parent
            | None \<Rightarrow> element))"

subsection \<open>The page as the engine sees it\<close>

text \<open>
  \<open>timers\<close> are the \<open>setTimeout(() => cleanupMermaidErrorElements(id), 0)\<close> callbacks
  that wait, by their id; \<open>frameCallbacks\<close> counts the \<open>requestAnimationFrame\<close> callbacks
  that wait (each is the same sweep); \<open>readSelector\<close> is how the document reads
  selector texts; \<open>cleanupCalls\<close> logs every call of \<open>cleanupMermaidErrorElements\<close> and
  is read by no code.
\<close>

record world =
  document :: "node list"
  renderCounter :: nat
  nextRef :: nat
  timers :: "string list"
  frameCallbacks :: nat
  readSelector :: selector_reader
  cleanupCalls :: "string list"

definition call_cleanup :: "string \<Rightarrow> world \<Rightarrow> world" where
  "call_cleanup renderId w =
     w\<lparr>document := cleanupMermaidErrorElements (readSelector w) renderId (document w),
       cleanupCalls := cleanupCalls w @ [renderId]\<rparr>"

text \<open>One turn of the event loop: the timers that wait run in order.\<close>

definition run_timers :: "world \<Rightarrow> world" where
  "run_timers w = fold call_cleanup (timers w) (w\<lparr>timers := []\<rparr>)"

text \<open>The render id \<open>`mpr-diagram-${++renderCounter}`\<close>: the counter is written in decimal.\<close>

fun digit_char :: "nat \<Rightarrow> char" where
  "digit_char n = char_of (48 + n)"

fun dec :: "nat \<Rightarrow> string" where
  "dec n = (if n < 10 then [digit_char n] else dec (n div 10) @ [digit_char (n mod 10)])"

declare dec.simps [simp del]

definition render_id :: "nat \<Rightarrow> string" where
  "render_id n = ''mpr-diagram-'' @ dec n"

subsection \<open>\<open>renderMermaidBlock\<close>\<close>

text \<open>
  How \<open>mermaid.render\<close> settles: with markup, given as the nodes the HTML parser makes of
  it (assigning it to \<open>innerHTML\<close> is its only use), or with a thrown value.
\<close>

datatype render_outcome = Resolved "node list" | Rejected js_value

text \<open>
  The inner \<open>try\<close> block,
  \<open>const { svg } = await mermaid.render(uniqueId, sourceCode); renderedDiv.innerHTML = svg\<close>.
  It throws when the render call rejects, and also when the render resolves but taking
  the markup from the result or injecting it throws; \<open>inject\<close> is what that throws, if
  anything. \<open>Inl err\<close> is the value the \<open>catch\<close> clause receives, \<open>Inr svg\<close> the markup
  that has been injected.
\<close>

definition inner_try :: "js_value option \<Rightarrow> render_outcome \<Rightarrow> js_value + node list" where
  "inner_try inject outcome =
     (case outcome of
        Rejected err \<Rightarrow> Inl err
      | Resolved svg \<Rightarrow> (case inject of Some err \<Rightarrow> Inl err | None \<Rightarrow> Inr svg))"

text \<open>
  The places outside the inner \<open>try\<close> block where a statement of the function can throw;
  \<open>FormatError\<close> stands for the statements of the \<open>catch\<close> clause after the two cleanup
  calls. Which of them throw, for one candidate, is a parameter \<open>thr\<close> of the model.
\<close>

datatype step = ExtractSource | BuildWrapper | FormatError | AttachToggle | Commit

record pending =
  p_element :: handle
  p_config :: PlatformConfig
  p_sourceCode :: string
  p_wrapper :: wrapper
  p_uniqueId :: string

text \<open>
  The function runs up to its \<open>await\<close> and is resumed when the render has settled. In
  between, anything may have happened to the page, so the second half takes the page as
  it finds it. \<open>Inl s\<close> is an exception thrown at step \<open>s\<close>.
\<close>

datatype start_result = Finished "node option" | Awaiting pending

definition start_body ::
  "(step \<Rightarrow> bool) \<Rightarrow> handle \<Rightarrow> PlatformConfig \<Rightarrow> world \<Rightarrow> (step + start_result) \<times> world" where
  "start_body thr element config w =
     (if thr ExtractSource then (Inl ExtractSource, w)
      else
        let sourceCode = extractSourceCode element config
        in if sourceCode = [] then (Inr (Finished None), w)
           else if thr BuildWrapper then (Inl BuildWrapper, w)
           else
             let wr = createPreservingWrapper (nextRef w) sourceCode;
                 w = w\<lparr>nextRef := nextRef w + 4\<rparr>;
                 w = w\<lparr>renderCounter := renderCounter w + 1\<rparr>;
                 uniqueId = render_id (renderCounter w)
             in (Inr (Awaiting \<lparr>p_element = element, p_config = config,
                                 p_sourceCode = sourceCode, p_wrapper = wr,
                                 p_uniqueId = uniqueId\<rparr>), w))"

definition renderMermaidBlock_start ::
  "(step \<Rightarrow> bool) \<Rightarrow> handle \<Rightarrow> PlatformConfig \<Rightarrow> world \<Rightarrow> start_result \<times> world" where
  "renderMermaidBlock_start thr element config w =
     (case start_body thr element config w of
        (Inl error, w') \<Rightarrow> (Finished None, w')
      | (Inr r, w') \<Rightarrow> (r, w'))"

text \<open>Where the candidate stands in the page now; \<open>None\<close> once it is detached.\<close>

definition current_handle :: "node list \<Rightarrow> handle \<Rightarrow> handle option" where
  "current_handle doc element =
     (case node_ref (fst element) of
        None \<Rightarrow> None
      | Some r \<Rightarrow> find_element doc r)"

definition attach_and_commit ::
  "(step \<Rightarrow> bool) \<Rightarrow> pending \<Rightarrow> wrapper \<Rightarrow> bool \<Rightarrow> world \<Rightarrow> (step + node option) \<times> world" where
  "attach_and_commit thr p wr hasError w =
     (if thr AttachToggle then (Inl AttachToggle, w)
      else
        let toggleBtn = createToggleButton (nextRef w) (sourceWrapper wr) (renderedDiv wr) hasError;
            w = w\<lparr>nextRef := nextRef w + 1\<rparr>;
            wr = wr\<lparr>sourceWrapper := sourceEl toggleBtn, renderedDiv := renderedEl toggleBtn\<rparr>;
            wr = wr\<lparr>appended := appended wr @ [button toggleBtn]\<rparr>
        in if thr Commit then (Inl Commit, w)
           else
             (case current_handle (document w) (p_element p) of
                None \<Rightarrow> (Inr (Some (container wr)), w)
              | Some element \<Rightarrow>
                  let wrapperToReplace = getWrapperToReplace element (p_config p)
                  in (Inr (Some (container wr)),
                      w\<lparr>document := replaceWith wrapperToReplace (container wr) (document w)\<rparr>)))"

definition resume_body ::
  "(step \<Rightarrow> bool) \<Rightarrow> js_value option \<Rightarrow> pending \<Rightarrow> render_outcome \<Rightarrow> world \<Rightarrow>
     (step + node option) \<times> world" where
  "resume_body thr inject p outcome w =
     (let wr = p_wrapper p
      in case inner_try inject outcome of
           Inr svg \<Rightarrow>
             attach_and_commit thr p
               (wr\<lparr>renderedDiv := set_childNodes svg (renderedDiv wr)\<rparr>) False w
         | Inl err \<Rightarrow>
             let w = call_cleanup (p_uniqueId p) w;
                 w = w\<lparr>timers := timers w @ [p_uniqueId p]\<rparr>
             in if thr FormatError then (Inl FormatError, w)
                else
                  let parsedError = parseErrorMessage err;
                      rd = set_childNodes [] (renderedDiv wr);
                      rd = appendChild (createErrorElement (nextRef w) parsedError) rd;
                      w = w\<lparr>nextRef := nextRef w + 4\<rparr>;
                      rd = classList_add ''mpr-error-container'' rd
                  in attach_and_commit thr p (wr\<lparr>renderedDiv := rd\<rparr>) True w)"

definition renderMermaidBlock_resume ::
  "(step \<Rightarrow> bool) \<Rightarrow> js_value option \<Rightarrow> pending \<Rightarrow> render_outcome \<Rightarrow> world \<Rightarrow>
     node option \<times> world" where
  "renderMermaidBlock_resume thr inject p outcome w =
     (case resume_body thr inject p outcome w of
        (Inl error, w') \<Rightarrow> (None, w')
      | (Inr r, w') \<Rightarrow> (r, w'))"

text \<open>
  The whole call, for a render that settles at once and a page that nobody else touches
  in between.
\<close>

definition renderMermaidBlock ::
  "(step \<Rightarrow> bool) \<Rightarrow> js_value option \<Rightarrow> render_outcome \<Rightarrow> handle \<Rightarrow> PlatformConfig \<Rightarrow>
     world \<Rightarrow> node option \<times> world" where
  "renderMermaidBlock thr inject outcome element config w =
     (case renderMermaidBlock_start thr element config w of
        (Finished r, w') \<Rightarrow> (r, w')
      | (Awaiting p, w') \<Rightarrow> renderMermaidBlock_resume thr inject p outcome w')"

subsection \<open>Sweeps and the observation loop\<close>

text \<open>
  \<open>blocks.forEach((block) => renderMermaidBlock(block, config))\<close>: each call runs up to
  its \<open>await\<close>, then the next block is taken. \<open>thr\<close> says, per candidate, what throws.
\<close>

fun dispatch_all ::
  "(handle \<Rightarrow> step \<Rightarrow> bool) \<Rightarrow> PlatformConfig \<Rightarrow> handle list \<Rightarrow> world \<Rightarrow> start_result list \<times> world" where
  "dispatch_all thr config [] w = ([], w)"
| "dispatch_all thr config (block # blocks) w =
     (case renderMermaidBlock_start (thr block) block config w of
        (r, w') \<Rightarrow> (case dispatch_all thr config blocks w' of
                     (rs, w'') \<Rightarrow> (r # rs, w'')))"

definition processExistingBlocks ::
  "(handle \<Rightarrow> step \<Rightarrow> bool) \<Rightarrow> PlatformConfig \<Rightarrow> world \<Rightarrow> start_result list \<times> world" where
  "processExistingBlocks thr config w =
     dispatch_all thr config (findUnprocessedMermaidBlocks config (document w)) w"

text \<open>
  \<open>setupMutationObserver\<close>. The observer's callback runs once per delivered batch of
  mutation records and calls \<open>requestAnimationFrame\<close> with the sweep. At the next frame
  the browser runs every callback that waits.
\<close>

definition observer_callback :: "world \<Rightarrow> world" where
  "observer_callback w = w\<lparr>frameCallbacks := frameCallbacks w + 1\<rparr>"

fun run_frame_callbacks ::
  "nat \<Rightarrow> (handle \<Rightarrow> step \<Rightarrow> bool) \<Rightarrow> PlatformConfig \<Rightarrow> world \<Rightarrow> start_result list list \<times> world" where
  "run_frame_callbacks 0 thr config w = ([], w)"
| "run_frame_callbacks (Suc n) thr config w =
     (case processExistingBlocks thr config w of
        (sweep, w') \<Rightarrow> (case run_frame_callbacks n thr config w' of
                        (sweeps, w'') \<Rightarrow> (sweep # sweeps, w'')))"

definition animation_frame ::
  "(handle \<Rightarrow> step \<Rightarrow> bool) \<Rightarrow> PlatformConfig \<Rightarrow> world \<Rightarrow> start_result list list \<times> world" where
  "animation_frame thr config w =
     run_frame_callbacks (frameCallbacks w) thr config (w\<lparr>frameCallbacks := 0\<rparr>)"

subsection \<open>What the committed artifact is to hold\<close>

text \<open>
  The source region is the first child of the container; it holds one \<open>code\<close> element
  with the class \<open>language-mermaid\<close>, whose text is the source.
\<close>

definition preserves_source :: "string \<Rightarrow> node \<Rightarrow> bool" where
  "preserves_source s c =
     (case childNodes c of
        [] \<Rightarrow> False
      | src # _ \<Rightarrow>
          localName src = ''pre'' \<and> classList src = [''mpr-source''] \<and>
          (case childNodes src of
             [code] \<Rightarrow> localName code = ''code'' \<and> classList code = [''language-mermaid''] \<and>
                       textContent code = s
           | _ \<Rightarrow> False))"

definition source_region :: "node \<Rightarrow> node option" where
  "source_region c = (case childNodes c of src # _ \<Rightarrow> Some src | [] \<Rightarrow> None)"

definition display_region :: "node \<Rightarrow> node option" where
  "display_region c = (case childNodes c of _ # disp # _ \<Rightarrow> Some disp | _ \<Rightarrow> None)"

text \<open>The variable \<open>hasError\<close> after the inner \<open>try\<close> block.\<close>

definition hasError :: "js_value option \<Rightarrow> render_outcome \<Rightarrow> bool" where
  "hasError inject outcome = (case inner_try inject outcome of Inl _ \<Rightarrow> True | Inr _ \<Rightarrow> False)"

text \<open>
  The error element as \<open>createErrorElement\<close> is to build it: a title, the details when
  there are any (hidden otherwise), and a hint.
\<close>

definition error_presentation :: "nat \<Rightarrow> string option \<Rightarrow> node" where
  "error_presentation r d =
     Element r ''div'' [''mpr-error''] [] []
       [Element (r + 1) ''div'' [''mpr-error-title''] [] [] [Text ''Failed to render diagram''],
        (case d of
           None \<Rightarrow> Element (r + 2) ''div'' [''mpr-error-details''] ''none'' [] []
         | Some text \<Rightarrow> Element (r + 2) ''div'' [''mpr-error-details''] [] [] [Text text]),
        Element (r + 3) ''div'' [''mpr-error-hint''] [] [] [Text ''Check the source code below'']]"

text \<open>No element of a page is one that a cleanup for the render id is to take out.\<close>

definition clean_of :: "string \<Rightarrow> node list \<Rightarrow> bool" where
  "clean_of renderId doc = list_all (\<lambda>h. \<not> polluting renderId (fst h)) (all_elements doc)"

text \<open>Whether a node stands somewhere in the document.\<close>

definition in_document :: "node \<Rightarrow> node list \<Rightarrow> bool" where
  "in_document n doc = (n \<in> fst ` set (all_elements doc))"

text \<open>What a sweep has started for a block: nothing, or a render of its source.\<close>

definition dispatched :: "start_result \<Rightarrow> (handle \<times> string) option" where
  "dispatched r =
     (case r of
        Finished _ \<Rightarrow> None
      | Awaiting p \<Rightarrow> Some (p_element p, p_sourceCode p))"

section \<open>A page and the configurations of the tests\<close>

text \<open>
  Modelled from the spec: \<open>config/selectors.json\<close> is not among the sources. The
  selectors are the ones \<open>detector.test.ts\<close> expects of \<open>getPlatformConfig\<close>; the tests
  do not show Grok's preview-button selector, which is left absent.
\<close>

definition sel_pre_code_mermaid :: selector where
  \<comment> \<open>\<open>pre code.language-mermaid\<close>\<close>
  "sel_pre_code_mermaid h = (sel_pre_code h \<and> ''language-mermaid'' \<in> set (classList (fst h)))"

definition sel_attr :: "string \<Rightarrow> string \<Rightarrow> selector" where
  "sel_attr name v h = (getAttribute (fst h) name = Some v)"

definition sel_class :: "string \<Rightarrow> selector" where
  "sel_class tok h = (tok \<in> set (classList (fst h)))"

definition chatgpt_config :: PlatformConfig where
  "chatgpt_config =
     \<lparr>platform = ChatGPT, codeBlockSelector = sel_pre_code_mermaid,
      wrapperSelector = sel_tag ''pre'', detection = ClassName,
      languageLabelSelector = None, previewButtonSelector = None\<rparr>"

definition gemini_config :: PlatformConfig where
  "gemini_config =
     \<lparr>platform = Gemini,
      codeBlockSelector = (\<lambda>h. sel_tag ''code'' h \<and> sel_attr ''data-test-id'' ''code-content'' h),
      wrapperSelector = sel_tag ''pre'', detection = ContentBased,
      languageLabelSelector = None, previewButtonSelector = None\<rparr>"

definition grok_config :: PlatformConfig where
  "grok_config =
     \<lparr>platform = Grok,
      codeBlockSelector = (\<lambda>h. sel_pre_code h \<and>
         list_ex (\<lambda>a. getAttribute a ''data-testid'' = Some ''code-block'') (snd h)),
      wrapperSelector = sel_attr ''data-testid'' ''code-block'', detection = LanguageLabel,
      languageLabelSelector = Some (sel_class ''text-secondary''), previewButtonSelector = None\<rparr>"

text \<open>
  The page of the test "should exclude processed blocks": one fresh block and one inside
  an element that carries the processed marker.
\<close>

definition example_page :: "node list" where
  "example_page =
     [Element 1 ''html'' [] [] []
        [Element 2 ''body'' [] [] []
           [Element 3 ''pre'' [] [] []
              [Element 4 ''code'' [''language-mermaid''] [] [] [Text ''graph TD; A-->B;'']],
            Element 5 ''div'' [] [] [(''data-mpr-processed'', ''true'')]
              [Element 6 ''pre'' [] [] []
                 [Element 7 ''code'' [''language-mermaid''] [] [] [Text ''graph LR; X-->Y;'']]]]]]"

text \<open>
  A reader that knows the three forms of \<open>reads_id_selectors\<close> and rejects every other
  text; it stands for the browser in the examples.
\<close>

definition example_reader :: selector_reader where
  "example_reader s =
     (let svg = ''svg[aria-roledescription='' @ dq @ ''error'' @ dq @ '']#'';
          open_attr = ''[id^='' @ dq;
          close_attr = dq @ '']'';
          v = take (length s - length open_attr - length close_attr) (drop (length open_attr) s)
      in if prefix svg s \<and> css_ident (drop (length svg) s)
         then Some (sel_error_svg (drop (length svg) s))
         else if prefix ''#'' s \<and> css_ident (drop 1 s) then Some (sel_id (drop 1 s))
         else if s = open_attr @ v @ close_attr \<and> css_string_ok v then Some (sel_id_prefix v)
         else None)"

definition example_world :: world where
  "example_world =
     \<lparr>document = example_page, renderCounter = 0, nextRef = 100, timers = [],
      frameCallbacks = 0, readSelector = example_reader, cleanupCalls = []\<rparr>"

text \<open>The fresh block and the block inside the processed element.\<close>

definition fresh_block :: handle where
  "fresh_block = all_elements example_page ! 3"

definition processed_block :: handle where
  "processed_block = all_elements example_page ! 6"

definition no_throw :: "step \<Rightarrow> bool" where
  "no_throw s = False"

text \<open>The render of the fresh block, as it waits for \<open>mermaid.render\<close>, and the page then.\<close>

definition example_pending :: pending where
  "example_pending =
     \<lparr>p_element = fresh_block, p_config = chatgpt_config,
      p_sourceCode = ''graph TD; A-->B;'',
      p_wrapper = createPreservingWrapper 100 ''graph TD; A-->B;'',
      p_uniqueId = ''mpr-diagram-1''\<rparr>"

definition example_world_started :: world where
  "example_world_started = example_world\<lparr>nextRef := 104, renderCounter := 1\<rparr>"

text \<open>Markup for the fresh block, an empty block, and a candidate for which one step throws.\<close>

definition example_svg :: "node list" where
  "example_svg = [Element 200 ''svg'' [] [] [(''id'', ''mpr-diagram-1'')] []]"

definition empty_block :: handle where
  "empty_block = (Element 9 ''code'' [''language-mermaid''] [] [] [Text ''   ''], [])"

definition throws_at :: "step \<Rightarrow> step \<Rightarrow> bool" where
  "throws_at s s' = (s' = s)"

text \<open>
  The page with the renderer's pollution for the first render id beside the blocks, as
  the tests of the cleanup inject it, and that page cleaned.
\<close>

definition polluted_page :: "node list" where
  "polluted_page =
     [Element 1 ''html'' [] [] []
        [Element 2 ''body'' [] [] []
           [Element 3 ''pre'' [] [] []
              [Element 4 ''code'' [''language-mermaid''] [] [] [Text ''graph TD; A-->B;'']],
            Element 8 ''p'' [] [] [(''id'', ''some-other-element'')] [],
            Element 9 ''div'' [] [] [(''id'', ''dmpr-diagram-1'')]
              [Element 10 ''svg'' [] [] [(''id'', ''mpr-diagram-1'')] []],
            Element 11 ''svg'' [] []
              [(''aria-roledescription'', ''error''), (''id'', ''mpr-diagram-1'')] []]]]"

definition cleaned_page :: "node list" where
  "cleaned_page =
     [Element 1 ''html'' [] [] []
        [Element 2 ''body'' [] [] []
           [Element 3 ''pre'' [] [] []
              [Element 4 ''code'' [''language-mermaid''] [] [] [Text ''graph TD; A-->B;'']],
            Element 8 ''p'' [] [] [(''id'', ''some-other-element'')] []]]]"

definition polluted_world :: world where
  "polluted_world = example_world_started\<lparr>document := polluted_page\<rparr>"

section \<open>Properties of the content classifier\<close>

lemma split_ws_ne: "split_ws s \<noteq> []"
  by (induction s) (auto split: list.splits)

lemma hd_split_ws: "hd (split_ws s) = takeWhile (\<lambda>c. \<not> is_space c) s"
  by (induction s) (auto split: list.splits simp: split_ws_ne)

lemma is_space_to_lower: "is_space (to_lower c) = is_space c"
  by (auto simp: is_space_def to_lower_def Let_def take_bit_nat_eq_self)

lemma dropWhile_rev_strip:
  "xs = [] \<or> \<not> P (hd xs) \<Longrightarrow>
   dropWhile P (rev (dropWhile P (rev xs))) = rev (dropWhile P (rev xs))"
proof (induction xs rule: rev_induct)
  case Nil
  then show ?case by simp
next
  case (snoc x xs)
  then show ?case by (cases xs) auto
qed

lemma trim_no_lead: "dropWhile is_space (trim s) = trim s"
  unfolding trim_def
  by (rule dropWhile_rev_strip) (metis hd_dropWhile)

lemma dropWhile_map_lower:
  "dropWhile is_space (map to_lower s) = map to_lower (dropWhile is_space s)"
  by (induction s) (auto simp: is_space_to_lower)

lemma trim_toLowerCase: "trim (toLowerCase s) = toLowerCase (trim s)"
  by (simp add: trim_def toLowerCase_def dropWhile_map_lower rev_map)

lemma dropWhile_append_all: "\<forall>c\<in>set a. P c \<Longrightarrow> dropWhile P (a @ s) = dropWhile P s"
  by (induction a) auto

lemma trim_pad:
  assumes a: "\<forall>c\<in>set a. is_space c" and b: "\<forall>c\<in>set b. is_space c"
  shows "trim (a @ s @ b) = trim s"
proof -
  have 1: "dropWhile is_space (a @ s @ b) = dropWhile is_space (s @ b)"
    using a by (rule dropWhile_append_all)
  show ?thesis
  proof (cases "\<forall>c\<in>set s. is_space c")
    case True
    then have "\<forall>c\<in>set (s @ b). is_space c" using b by auto
    then have 2: "dropWhile is_space (s @ b) = []" by (simp only: dropWhile_eq_Nil_conv)
    have 3: "dropWhile is_space s = []" using True by simp
    show ?thesis unfolding trim_def 1 2 3 by simp
  next
    case False
    then obtain x where "x \<in> set s" "\<not> is_space x" by blast
    then have 2: "dropWhile is_space (s @ b) = dropWhile is_space s @ b"
      by (rule dropWhile_append1)
    have 3: "dropWhile is_space (rev b @ ys) = dropWhile is_space ys" for ys
      using b by (intro dropWhile_append_all) simp
    show ?thesis unfolding trim_def 1 2 by (simp add: 3)
  qed
qed

lemma isMermaidContent_spec: "isMermaidContent s = looksLikeDiagram_spec s"
proof -
  let ?t = "toLowerCase (trim s)"
  have "dropWhile is_space ?t = ?t"
    by (metis trim_toLowerCase trim_no_lead)
  then have "first_token ?t = hd (split_ws ?t)"
    by (simp add: first_token_def hd_split_ws)
  then show ?thesis
    using split_ws_ne[of ?t]
    by (cases "split_ws ?t") (simp_all add: isMermaidContent_def looksLikeDiagram_spec_def)
qed

lemma isMermaidContent_case: "same_up_to_case s t \<Longrightarrow> isMermaidContent s = isMermaidContent t"
  by (simp add: isMermaidContent_def same_up_to_case_def trim_toLowerCase[symmetric])

lemma str_includes_iff: "str_includes h n \<longleftrightarrow> (\<exists>ps ss. h = ps @ n @ ss)"
proof (induction h)
  case Nil
  then show ?case by auto
next
  case (Cons c cs)
  show ?case
  proof
    assume "str_includes (c # cs) n"
    then show "\<exists>ps ss. c # cs = ps @ n @ ss"
      using Cons.IH by (auto simp: prefix_def intro: exI[of _ "[]"] ) (metis append_Cons)
  next
    assume "\<exists>ps ss. c # cs = ps @ n @ ss"
    then obtain ps ss where e: "c # cs = ps @ n @ ss" by blast
    show "str_includes (c # cs) n"
    proof (cases ps)
      case Nil
      then have "prefix n (c # cs)" using e by (simp add: prefix_def)
      then show ?thesis by simp
    next
      case (Cons p ps')
      then have "cs = ps' @ n @ ss" using e by simp
      then show ?thesis using Cons.IH by auto
    qed
  qed
qed

text \<open>
  Claim C7. \<open>isMermaidContent\<close> holds of a text exactly when the first white-space
  delimited token of the trimmed, lower-cased text is one of the diagram keywords; the
  result does not change when white space is put before or after the text, nor when
  letters change case.
\<close>

theorem isMermaidContent_first_token:
  "(isMermaidContent s \<longleftrightarrow> looksLikeDiagram_spec s) \<and>
   (list_all is_space a \<and> list_all is_space b \<longrightarrow>
      isMermaidContent (a @ s @ b) = isMermaidContent s) \<and>
   (same_up_to_case s t \<longrightarrow> isMermaidContent s = isMermaidContent t)"
  using isMermaidContent_spec[of s] isMermaidContent_case[of s t] trim_pad[of a b s]
  by (simp add: list_all_iff isMermaidContent_def)

theorem isMermaidContent_first_token_witness:
  "isMermaidContent ''GRAPH TD; A-->B;'' \<and> looksLikeDiagram_spec ''GRAPH TD; A-->B;'' \<and>
   list_all is_space ''  '' \<and> list_all is_space '' '' \<and>
   isMermaidContent (''  '' @ ''GRAPH TD; A-->B;'' @ '' '') \<and>
   same_up_to_case ''GRAPH TD; A-->B;'' ''graph td; a-->b;'' \<and>
   isMermaidContent ''graph td; a-->b;''"
proof -
  have 1: "isMermaidContent ''GRAPH TD; A-->B;''" by code_simp
  have 2: "list_all is_space ''  '' \<and> list_all is_space '' ''" by code_simp
  have 3: "same_up_to_case ''GRAPH TD; A-->B;'' ''graph td; a-->b;''" by code_simp
  show ?thesis
    using 1 2 3
      isMermaidContent_first_token[of "''GRAPH TD; A-->B;''" "''  ''" "'' ''" "''graph td; a-->b;''"]
    by blast
qed

section \<open>Properties of the platform registry\<close>

lemma detect_Some:
  "detectPlatform_in t h = Some k \<longleftrightarrow>
     (\<exists>pre host post. t = pre @ (k, host) # post \<and> str_includes h host \<and>
        list_all (\<lambda>e. \<not> str_includes h (snd e)) pre)"
proof (induction t)
  case Nil
  then show ?case by simp
next
  case (Cons e t)
  obtain k' host' where e: "e = (k', host')" by (cases e)
  show ?case
  proof (cases "str_includes h host'")
    case True
    have "(\<exists>pre host post. (k', host') # t = pre @ (k, host) # post \<and> str_includes h host \<and>
        list_all (\<lambda>e. \<not> str_includes h (snd e)) pre) \<longleftrightarrow> k' = k"
    proof
      assume "\<exists>pre host post. (k', host') # t = pre @ (k, host) # post \<and> str_includes h host \<and>
        list_all (\<lambda>e. \<not> str_includes h (snd e)) pre"
      then obtain pre host post where p: "(k', host') # t = pre @ (k, host) # post"
        "list_all (\<lambda>e. \<not> str_includes h (snd e)) pre" by blast
      show "k' = k" using p True by (cases pre) auto
    next
      assume "k' = k"
      then have "(k', host') # t = [] @ (k, host') # t \<and> str_includes h host' \<and>
          list_all (\<lambda>e. \<not> str_includes h (snd e)) []" using True by simp
      then show "\<exists>pre host post. (k', host') # t = pre @ (k, host) # post \<and> str_includes h host \<and>
        list_all (\<lambda>e. \<not> str_includes h (snd e)) pre" by blast
    qed
    then show ?thesis using True e by auto
  next
    case False
    have "(\<exists>pre host post. (k', host') # t = pre @ (k, host) # post \<and> str_includes h host \<and>
        list_all (\<lambda>e. \<not> str_includes h (snd e)) pre) \<longleftrightarrow>
      (\<exists>pre host post. t = pre @ (k, host) # post \<and> str_includes h host \<and>
        list_all (\<lambda>e. \<not> str_includes h (snd e)) pre)" (is "?L \<longleftrightarrow> ?R")
    proof
      assume ?L
      then obtain pre host post where p: "(k', host') # t = pre @ (k, host) # post"
        "str_includes h host" "list_all (\<lambda>e. \<not> str_includes h (snd e)) pre" by blast
      show ?R
      proof (cases pre)
        case Nil
        then show ?thesis using p False by auto
      next
        case (Cons x pre')
        then have "t = pre' @ (k, host) # post" "list_all (\<lambda>e. \<not> str_includes h (snd e)) pre'"
          using p by auto
        then show ?thesis using p(2) by blast
      qed
    next
      assume ?R
      then obtain pre host post where p: "t = pre @ (k, host) # post"
        "str_includes h host" "list_all (\<lambda>e. \<not> str_includes h (snd e)) pre" by blast
      then have "(k', host') # t = ((k', host') # pre) @ (k, host) # post \<and> str_includes h host \<and>
         list_all (\<lambda>e. \<not> str_includes h (snd e)) ((k', host') # pre)" using False by simp
      then show ?L by blast
    qed
    then show ?thesis using False e Cons.IH by simp
  qed
qed

lemma detect_None:
  "detectPlatform_in t h = None \<longleftrightarrow> list_all (\<lambda>e. \<not> str_includes h (snd e)) t"
  by (induction t) (auto split: if_splits)

text \<open>
  Claim C6, as amended. \<open>detectPlatform\<close> returns a platform exactly when the host name
  contains that platform's host name and contains the host name of no entry listed
  before it; it returns nothing exactly when the host name contains none of them.
  Containment is containment of a substring.
\<close>

theorem detectPlatform_first_match:
  "(detectPlatform_in t h = Some k \<longleftrightarrow>
     (\<exists>pre host post. t = pre @ (k, host) # post \<and> str_includes h host \<and>
        list_all (\<lambda>e. \<not> str_includes h (snd e)) pre)) \<and>
   (detectPlatform_in t h = None \<longleftrightarrow> list_all (\<lambda>e. \<not> str_includes h (snd e)) t) \<and>
   (str_includes h n \<longleftrightarrow> (\<exists>ps ss. h = ps @ n @ ss)) \<and>
   detectPlatform h = detectPlatform_in platform_hostnames h"
  using detect_Some[of t h k] detect_None[of t h] str_includes_iff[of h n]
  by (simp add: detectPlatform_def)

text \<open>
  The claim as first stated fails: a host name that contains two of the host names is
  given to the first entry only.
\<close>

theorem detectPlatform_counterexample:
  "str_includes ''chatgpt.com.claude.ai'' ''claude.ai'' \<and>
   detectPlatform ''chatgpt.com.claude.ai'' = Some ChatGPT \<and>
   \<not> (detectPlatform ''chatgpt.com.claude.ai'' = Some Claude \<longleftrightarrow>
        str_includes ''chatgpt.com.claude.ai'' ''claude.ai'')"
  by code_simp

theorem detectPlatform_first_match_witness:
  "detectPlatform ''www.claude.ai'' = Some Claude \<and>
   (\<exists>pre host post. platform_hostnames = pre @ (Claude, host) # post \<and>
      str_includes ''www.claude.ai'' host \<and>
      list_all (\<lambda>e. \<not> str_includes ''www.claude.ai'' (snd e)) pre) \<and>
   detectPlatform ''example.com'' = None \<and>
   list_all (\<lambda>e. \<not> str_includes ''example.com'' (snd e)) platform_hostnames"
proof -
  have 1: "detectPlatform ''www.claude.ai'' = Some Claude" by code_simp
  have 2: "detectPlatform ''example.com'' = None" by code_simp
  have a: "detectPlatform_in platform_hostnames ''www.claude.ai'' = Some Claude"
    using 1 by (simp only: detectPlatform_def)
  have b: "detectPlatform_in platform_hostnames ''example.com'' = None"
    using 2 by (simp only: detectPlatform_def)
  have 3: "\<exists>pre host post. platform_hostnames = pre @ (Claude, host) # post \<and>
      str_includes ''www.claude.ai'' host \<and>
      list_all (\<lambda>e. \<not> str_includes ''www.claude.ai'' (snd e)) pre"
    using a detectPlatform_first_match[of platform_hostnames "''www.claude.ai''" Claude "[]"]
    by blast
  have 4: "list_all (\<lambda>e. \<not> str_includes ''example.com'' (snd e)) platform_hostnames"
    using b detectPlatform_first_match[of platform_hostnames "''example.com''" Claude "[]"]
    by blast
  show ?thesis using 1 2 3 4 by blast
qed

section \<open>Properties of the document model\<close>

lemma elements_of_parent:
  "(n, a) \<in> set (elements_of anc root) \<Longrightarrow>
     (n = root \<and> a = anc) \<or>
     (length anc < length a \<and>
      (\<exists>p rest. a = p # rest \<and> (p, rest) \<in> set (elements_of anc root) \<and> n \<in> set (childNodes p)))"
proof (induction root arbitrary: anc)
  case (Text s)
  then show ?case by simp
next
  case (Element r t c d at k)
  let ?self = "Element r t c d at k"
  show ?case
  proof (cases "(n, a) = (?self, anc)")
    case True
    then show ?thesis by simp
  next
    case False
    then obtain kid where kid: "kid \<in> set k" "(n, a) \<in> set (elements_of (?self # anc) kid)"
      using Element.prems by auto
    from Element.IH[OF kid]
    show ?thesis
    proof
      assume "n = kid \<and> a = ?self # anc"
      then show ?thesis using kid(1) by simp
    next
      assume "length (?self # anc) < length a \<and>
        (\<exists>p rest. a = p # rest \<and> (p, rest) \<in> set (elements_of (?self # anc) kid) \<and>
           n \<in> set (childNodes p))"
      then obtain p rest where pr: "length (?self # anc) < length a" "a = p # rest"
        "(p, rest) \<in> set (elements_of (?self # anc) kid)" "n \<in> set (childNodes p)" by blast
      have "(p, rest) \<in> set (elements_of anc ?self)" using pr(3) kid(1) by auto
      then show ?thesis using pr by auto
    qed
  qed
qed

lemma all_elements_parent:
  assumes "(n, p # rest) \<in> set (all_elements doc)"
  shows "(p, rest) \<in> set (all_elements doc) \<and> n \<in> set (childNodes p)"
proof -
  obtain root where root: "root \<in> set doc" "(n, p # rest) \<in> set (elements_of [] root)"
    using assms by (auto simp: all_elements_def)
  from elements_of_parent[OF root(2)]
  have "(p, rest) \<in> set (elements_of [] root) \<and> n \<in> set (childNodes p)" by auto
  then show ?thesis using root(1) by (auto simp: all_elements_def)
qed

lemma fst_inclusive_ancestors: "map fst (inclusive_ancestors (n, anc)) = n # anc"
  by (induction anc arbitrary: n) auto

lemma closest_processed_None:
  "closest sel_processed h = None \<longleftrightarrow> \<not> carries_processed_marker h"
proof -
  obtain n anc where h: "h = (n, anc)" by (cases h)
  let ?P = "\<lambda>m. getAttribute m ''data-mpr-processed'' = Some ''true''"
  have img: "fst ` set (inclusive_ancestors (n, anc)) = set (n # anc)"
    using fst_inclusive_ancestors[of n anc] by (metis set_map)
  have "(\<exists>x\<in>set (inclusive_ancestors (n, anc)). sel_processed x) \<longleftrightarrow>
        (\<exists>m\<in>fst ` set (inclusive_ancestors (n, anc)). ?P m)"
    by (auto simp: sel_processed_def)
  then have "(\<exists>x\<in>set (inclusive_ancestors (n, anc)). sel_processed x) \<longleftrightarrow>
        (\<exists>m\<in>set (n # anc). ?P m)"
    by (simp only: img)
  moreover have "closest sel_processed h = None \<longleftrightarrow>
      \<not> (\<exists>x\<in>set (inclusive_ancestors (n, anc)). sel_processed x)"
    by (auto simp add: closest_def find_None_iff h)
  moreover have "carries_processed_marker h \<longleftrightarrow> (\<exists>m\<in>set (n # anc). ?P m)"
    by (simp add: carries_processed_marker_def list_ex_iff h)
  ultimately show ?thesis by blast
qed

lemma not_Some_pair: "(\<forall>a b. x \<noteq> Some (a, b)) \<longleftrightarrow> x = None"
  by (cases x) auto

section \<open>Properties of the block detector\<close>

text \<open>
  Claim C2. Under each of the three detection strategies and for every document, an
  element that carries the processed marker on itself or on an ancestor is not among the
  blocks \<open>findUnprocessedMermaidBlocks\<close> returns; what it returns are elements of the
  document.
\<close>

theorem findUnprocessed_excludes_processed:
  "(carries_processed_marker h \<longrightarrow> h \<notin> set (findUnprocessedMermaidBlocks config doc)) \<and>
   list_all (\<lambda>b. \<not> carries_processed_marker b \<and> b \<in> set (all_elements doc))
     (findUnprocessedMermaidBlocks config doc)"
proof -
  have key: "b \<in> set (findUnprocessedMermaidBlocks config doc) \<Longrightarrow>
        closest sel_processed b = None \<and> b \<in> set (all_elements doc)" for b
    by (cases "detection config")
       (auto simp: findUnprocessedMermaidBlocks_def querySelectorAll_def not_Some_pair
          split: if_splits)
  have "b \<in> set (findUnprocessedMermaidBlocks config doc) \<Longrightarrow>
        \<not> carries_processed_marker b \<and> b \<in> set (all_elements doc)" for b
    using key[of b] closest_processed_None[of b] by simp
  then show ?thesis
    unfolding list_all_iff by blast
qed

theorem findUnprocessed_excludes_processed_witness:
  "carries_processed_marker processed_block \<and>
   processed_block \<notin> set (findUnprocessedMermaidBlocks chatgpt_config example_page)"
proof -
  have c: "carries_processed_marker processed_block" by code_simp
  show ?thesis
    using c findUnprocessed_excludes_processed[of processed_block chatgpt_config example_page]
    by blast
qed

section \<open>Properties of the engine's helpers\<close>

text \<open>
  Claim C10. \<open>getWrapperToReplace\<close> always returns an element: the candidate itself for
  the Grok configuration; for every other configuration the candidate's parent element
  when it has one, and the candidate itself when it has none. For a candidate of the
  document the result is an element of the document, and the parent is the element the
  candidate is a child of.
\<close>

theorem getWrapperToReplace_total:
  "(platform config = Grok \<longrightarrow> getWrapperToReplace e config = e) \<and>
   (platform config \<noteq> Grok \<and> parentElement e = Some p \<longrightarrow> getWrapperToReplace e config = p) \<and>
   (platform config \<noteq> Grok \<and> parentElement e = None \<longrightarrow> getWrapperToReplace e config = e) \<and>
   (e \<in> set (all_elements doc) \<longrightarrow> getWrapperToReplace e config \<in> set (all_elements doc)) \<and>
   (e \<in> set (all_elements doc) \<and> parentElement e = Some p \<longrightarrow>
      p \<in> set (all_elements doc) \<and> fst e \<in> set (childNodes (fst p)))"
proof -
  have par: "e \<in> set (all_elements doc) \<Longrightarrow> parentElement e = Some q \<Longrightarrow>
     q \<in> set (all_elements doc) \<and> fst e \<in> set (childNodes (fst q))" for q
    using all_elements_parent[of "fst e" "fst q" "snd q" doc]
    by (cases e) (auto simp: parentElement_def split: list.splits)
  show ?thesis
    using par by (auto simp: getWrapperToReplace_def split: option.splits)
qed

theorem getWrapperToReplace_total_witness:
  "platform grok_config = Grok \<and> getWrapperToReplace fresh_block grok_config = fresh_block \<and>
   platform chatgpt_config \<noteq> Grok \<and>
   parentElement fresh_block = Some (all_elements example_page ! 2) \<and>
   getWrapperToReplace fresh_block chatgpt_config = all_elements example_page ! 2 \<and>
   parentElement (all_elements example_page ! 0) = None \<and>
   getWrapperToReplace (all_elements example_page ! 0) chatgpt_config =
     all_elements example_page ! 0 \<and>
   fresh_block \<in> set (all_elements example_page) \<and>
   getWrapperToReplace fresh_block chatgpt_config \<in> set (all_elements example_page) \<and>
   fst fresh_block \<in> set (childNodes (fst (all_elements example_page ! 2)))"
proof -
  have 1: "platform grok_config = Grok" "platform chatgpt_config \<noteq> Grok"
    by (simp_all add: grok_config_def chatgpt_config_def)
  have 2: "parentElement fresh_block = Some (all_elements example_page ! 2)" by code_simp
  have 3: "parentElement (all_elements example_page ! 0) = None" by code_simp
  have 4: "fresh_block \<in> set (all_elements example_page)" by code_simp
  show ?thesis
    using 1 2 3 4
      getWrapperToReplace_total[of grok_config fresh_block "all_elements example_page ! 2" example_page]
      getWrapperToReplace_total[of chatgpt_config fresh_block "all_elements example_page ! 2" example_page]
      getWrapperToReplace_total[of chatgpt_config "all_elements example_page ! 0" "all_elements example_page ! 2" example_page]
    by blast
qed

text \<open>
  Claim C9. The earlier and the current renderer agree on their shared helpers:
  \<open>createPreservingWrapper\<close> builds the same container, source region and display region,
  and \<open>extractSourceCode\<close> and \<open>getWrapperToReplace\<close> return the same results.
\<close>

theorem renderer_versions_agree:
  "createPreservingWrapper_v1 r sourceCode = createPreservingWrapper r sourceCode \<and>
   container (createPreservingWrapper_v1 r sourceCode) =
     container (createPreservingWrapper r sourceCode) \<and>
   extractSourceCode_v1 element config = extractSourceCode element config \<and>
   getWrapperToReplace_v1 element config = getWrapperToReplace element config"
  by (simp add: createPreservingWrapper_v1_def createPreservingWrapper_def
      extractSourceCode_v1_def extractSourceCode_def
      getWrapperToReplace_v1_def getWrapperToReplace_def)

section \<open>Properties of the toggle button\<close>

lemma click_elements:
  assumes "node_ref (sourceEl t) \<noteq> None" "node_ref (renderedEl t) \<noteq> None"
  shows "exactly_one_visible (click t) \<and>
         visible (sourceEl (click t)) = showingSource (click t) \<and>
         showingSource (click t) = (\<not> showingSource t) \<and>
         node_ref (sourceEl (click t)) \<noteq> None \<and> node_ref (renderedEl (click t)) \<noteq> None"
proof -
  obtain r1 t1 c1 d1 a1 k1 where s: "sourceEl t = Element r1 t1 c1 d1 a1 k1"
    using assms(1) by (cases "sourceEl t") auto
  obtain r2 t2 c2 d2 a2 k2 where d: "renderedEl t = Element r2 t2 c2 d2 a2 k2"
    using assms(2) by (cases "renderedEl t") auto
  show ?thesis
    by (simp add: click_def Let_def exactly_one_visible_def visible_def s d)
qed

lemma clicks_elements:
  assumes "node_ref (sourceEl t) \<noteq> None" "node_ref (renderedEl t) \<noteq> None"
  shows "node_ref (sourceEl (clicks n t)) \<noteq> None \<and> node_ref (renderedEl (clicks n t)) \<noteq> None \<and>
         showingSource (clicks n t) = (if even n then showingSource t else \<not> showingSource t)"
proof (induction n)
  case 0
  then show ?case using assms by simp
next
  case (Suc n)
  then show ?case using click_elements[of "clicks n t"] by simp
qed

text \<open>
  Claim C4, as amended. After every click exactly one of the two regions is visible, the
  source region when the button shows the source and the display region otherwise, and
  each click flips that state. At construction the button leaves the two regions as they
  are when \<open>initialShowSource\<close> is false, so that after \<open>createPreservingWrapper\<close> the
  source region is hidden and the display region visible; when \<open>initialShowSource\<close> is
  true it shows both regions.
\<close>

theorem toggle_visibility:
  "exactly_one_visible
     (clicks (Suc n) (createToggleButton r (Element r1 t1 c1 d1 a1 k1) (Element r2 t2 c2 d2 a2 k2) init)) \<and>
   visible (sourceEl
     (clicks (Suc n) (createToggleButton r (Element r1 t1 c1 d1 a1 k1) (Element r2 t2 c2 d2 a2 k2) init))) =
   showingSource
     (clicks (Suc n) (createToggleButton r (Element r1 t1 c1 d1 a1 k1) (Element r2 t2 c2 d2 a2 k2) init)) \<and>
   showingSource
     (clicks m (createToggleButton r (Element r1 t1 c1 d1 a1 k1) (Element r2 t2 c2 d2 a2 k2) init)) =
   (if even m then init else \<not> init) \<and>
   sourceEl (createToggleButton r (Element r1 t1 c1 d1 a1 k1) (Element r2 t2 c2 d2 a2 k2) False) =
     Element r1 t1 c1 d1 a1 k1 \<and>
   renderedEl (createToggleButton r (Element r1 t1 c1 d1 a1 k1) (Element r2 t2 c2 d2 a2 k2) False) =
     Element r2 t2 c2 d2 a2 k2 \<and>
   exactly_one_visible
     (createToggleButton r (sourceWrapper (createPreservingWrapper r' sourceCode))
        (renderedDiv (createPreservingWrapper r' sourceCode)) False) \<and>
   visible (sourceEl
     (createToggleButton r (Element r1 t1 c1 d1 a1 k1) (Element r2 t2 c2 d2 a2 k2) True)) \<and>
   visible (renderedEl
     (createToggleButton r (Element r1 t1 c1 d1 a1 k1) (Element r2 t2 c2 d2 a2 k2) True))"
proof -
  let ?t = "createToggleButton r (Element r1 t1 c1 d1 a1 k1) (Element r2 t2 c2 d2 a2 k2) init"
  have el: "node_ref (sourceEl ?t) \<noteq> None" "node_ref (renderedEl ?t) \<noteq> None"
    and sh: "showingSource ?t = init"
    by (simp_all add: createToggleButton_def Let_def)
  have 1: "exactly_one_visible (clicks (Suc n) ?t) \<and>
           visible (sourceEl (clicks (Suc n) ?t)) = showingSource (clicks (Suc n) ?t)"
    using click_elements[of "clicks n ?t"] clicks_elements[OF el, of n] by simp
  have 2: "showingSource (clicks m ?t) = (if even m then init else \<not> init)"
    using clicks_elements[OF el, of m] sh by simp
  have 3: "exactly_one_visible
     (createToggleButton r (sourceWrapper (createPreservingWrapper r' sourceCode))
        (renderedDiv (createPreservingWrapper r' sourceCode)) False)"
    by (simp add: createToggleButton_def createPreservingWrapper_def createElement_def Let_def
        exactly_one_visible_def visible_def set_textContent_def)
  show ?thesis
    using 1 2 3
    by (simp add: createToggleButton_def Let_def visible_def)
qed

theorem toggle_visibility_witness:
  "exactly_one_visible
     (clicks 3 (createToggleButton 4 (sourceWrapper (createPreservingWrapper 0 ''graph TD''))
          (renderedDiv (createPreservingWrapper 0 ''graph TD'')) True))"
proof -
  have s: "sourceWrapper (createPreservingWrapper 0 ''graph TD'') =
      Element 1 ''pre'' [''mpr-source''] ''none'' []
        [Element 2 ''code'' [''language-mermaid''] [] [] [Text ''graph TD'']]"
    and d: "renderedDiv (createPreservingWrapper 0 ''graph TD'') =
      Element 3 ''div'' [''mpr-rendered''] [] [] []"
    by (simp_all add: createPreservingWrapper_def createElement_def set_textContent_def)
  have n: "clicks 3 t = clicks (Suc 2) t" for t
    by (simp add: numeral_3_eq_3)
  show ?thesis
    unfolding s d n
    using toggle_visibility[of 2 4 1 "''pre''" "[''mpr-source'']" "''none''" "[]"
      "[Element 2 ''code'' [''language-mermaid''] [] [] [Text ''graph TD'']]"
      3 "''div''" "[''mpr-rendered'']" "[]" "[]" "[]" True 0 0 "[]"]
    by (rule conjunct1)
qed

text \<open>
  The claim as first stated fails at construction: for a failed render the button is made
  with \<open>initialShowSource\<close> true, and then both regions are shown.
\<close>

theorem toggle_initial_counterexample:
  "\<not> exactly_one_visible
       (createToggleButton 4 (sourceWrapper (createPreservingWrapper 0 ''graph TD''))
          (renderedDiv (createPreservingWrapper 0 ''graph TD'')) True)"
  by (simp add: createToggleButton_def createPreservingWrapper_def createElement_def Let_def
      exactly_one_visible_def visible_def set_textContent_def)

section \<open>Properties of the error cleanup\<close>

text \<open>The render ids the engine makes are identifiers as they stand.\<close>

lemma is_digit_digit_char: "k < 10 \<Longrightarrow> is_digit (digit_char k)"
  by (simp add: is_digit_def take_bit_nat_eq_self)

lemma dec_digits: "list_all is_digit (dec n)"
proof (induction n rule: dec.induct)
  case (1 n)
  show ?case
  proof (cases "n < 10")
    case True
    then show ?thesis by (subst dec.simps) (simp add: is_digit_digit_char del: digit_char.simps)
  next
    case False
    then show ?thesis using 1
      by (subst dec.simps) (simp add: is_digit_digit_char del: digit_char.simps)
  qed
qed

lemma digit_name_char: "is_digit c \<Longrightarrow> name_char c"
  by (simp add: is_digit_def name_char_def Let_def)

lemma digit_string_ok: "is_digit c \<Longrightarrow> (of_char c :: nat) \<notin> {34, 92, 10, 12, 13}"
  by (auto simp add: is_digit_def)

lemma render_id_valid:
  "css_ident (render_id n) \<and> css_string_ok (render_id n)"
proof -
  have d: "list_all name_char (dec n)" "list_all (\<lambda>c. (of_char c :: nat) \<notin> {34, 92, 10, 12, 13}) (dec n)"
    using dec_digits[of n] digit_name_char digit_string_ok by (auto simp: list_all_iff)
  have p: "list_all name_char ''mpr-diagram-''"
          "list_all (\<lambda>c. (of_char c :: nat) \<notin> {34, 92, 10, 12, 13}) ''mpr-diagram-''"
    by (simp_all add: name_char_def Let_def)
  show ?thesis
    using d p by (simp add: render_id_def css_ident_def css_string_ok_def is_digit_def)
qed

text \<open>A reader that reads the three forms right reads the four texts of a cleanup right.\<close>

lemma d_ident:
  assumes "css_ident rid" "css_string_ok rid"
  shows "css_ident (CHR ''d'' # rid) \<and> css_string_ok (CHR ''d'' # rid)"
  using assms
  by (cases rid) (simp_all add: css_ident_def css_string_ok_def name_char_def is_digit_def Let_def)

lemma reads_errorSelectors:
  assumes "reads_id_selectors reader" "css_ident rid" "css_string_ok rid"
  shows "map reader (errorSelectors rid) =
           [Some (sel_id (CHR ''d'' # rid)), Some (sel_id rid),
            Some (sel_id_prefix (CHR ''d'' # rid)), Some (sel_error_svg rid)]"
proof -
  note d = d_ident[OF assms(2,3)]
  have 1: "reader (''#'' @ (CHR ''d'' # rid)) = Some (sel_id (CHR ''d'' # rid))"
    using assms(1) d unfolding reads_id_selectors_def by blast
  have 2: "reader (''#'' @ rid) = Some (sel_id rid)"
    using assms(1,2) unfolding reads_id_selectors_def by blast
  have 3: "reader (''[id^='' @ dq @ (CHR ''d'' # rid) @ dq @ '']'') =
      Some (sel_id_prefix (CHR ''d'' # rid))"
    using assms(1) d unfolding reads_id_selectors_def by blast
  have 4: "reader (''svg[aria-roledescription='' @ dq @ ''error'' @ dq @ '']#'' @ rid) =
      Some (sel_error_svg rid)"
    using assms(1,2) unfolding reads_id_selectors_def by blast
  have e1: "''#d'' @ rid = ''#'' @ (CHR ''d'' # rid)" by simp
  have e3: "''[id^='' @ dq @ ''d'' @ rid @ dq @ '']'' = ''[id^='' @ dq @ (CHR ''d'' # rid) @ dq @ '']''"
    by simp
  show ?thesis
    unfolding errorSelectors_def e1 e3 list.map 1 2 3 4 by (rule refl)
qed

lemma example_reader_reads: "reads_id_selectors example_reader"
proof -
  have a: "example_reader (''#'' @ name) = Some (sel_id name)" if "css_ident name" for name
    using that by (simp add: example_reader_def dq_def Let_def)
  have b: "example_reader (''svg[aria-roledescription='' @ dq @ ''error'' @ dq @ '']#'' @ name) =
      Some (sel_error_svg name)" if "css_ident name" for name
    using that by (simp add: example_reader_def dq_def Let_def)
  have c: "example_reader (''[id^='' @ dq @ v @ dq @ '']'') = Some (sel_id_prefix v)"
    if "css_string_ok v" for v
    using that by (simp add: example_reader_def dq_def Let_def)
  show ?thesis
    unfolding reads_id_selectors_def using a b c by blast
qed

text \<open>
  Every element left after a removal comes from an element of the page before it, with
  the same attributes, that the selector did not match.
\<close>

lemma remove_matches_elements:
  assumes "h' \<in> set (concat (map (elements_of anc') (remove_matches sel anc root)))"
  shows "\<exists>h\<in>set (elements_of anc root).
           getAttribute (fst h') = getAttribute (fst h) \<and> \<not> sel h"
  using assms
proof (induction root arbitrary: anc anc' h')
  case (Text s)
  then show ?case by simp
next
  case (Element r t c d a k)
  let ?self = "Element r t c d a k"
  show ?case
  proof (cases "sel (?self, anc)")
    case True
    then show ?thesis using Element.prems by simp
  next
    case False
    let ?kids = "concat (map (remove_matches sel (?self # anc)) k)"
    let ?new = "Element r t c d a ?kids"
    have "h' = (?new, anc') \<or> h' \<in> set (concat (map (elements_of (?new # anc')) ?kids))"
      using Element.prems False by simp
    then show ?thesis
    proof
      assume "h' = (?new, anc')"
      then have "getAttribute (fst h') = getAttribute (fst (?self, anc)) \<and> \<not> sel (?self, anc)"
        using False by (auto intro: ext)
      then show ?thesis by (intro bexI[of _ "(?self, anc)"]) simp_all
    next
      assume "h' \<in> set (concat (map (elements_of (?new # anc')) ?kids))"
      then obtain m where m: "m \<in> set ?kids" "h' \<in> set (elements_of (?new # anc') m)" by auto
      then obtain kid where kid: "kid \<in> set k" "m \<in> set (remove_matches sel (?self # anc) kid)"
        by auto
      have "h' \<in> set (concat (map (elements_of (?new # anc'))
                 (remove_matches sel (?self # anc) kid)))"
        using m(2) kid(2) by auto
      from Element.IH[OF kid(1) this]
      obtain h where "h \<in> set (elements_of (?self # anc) kid)"
        "getAttribute (fst h') = getAttribute (fst h) \<and> \<not> sel h" by blast
      then show ?thesis using kid(1) by auto
    qed
  qed
qed

lemma remove_all_elements:
  assumes "h' \<in> set (all_elements (remove_all sel doc))"
  shows "\<exists>h\<in>set (all_elements doc). getAttribute (fst h') = getAttribute (fst h) \<and> \<not> sel h"
proof -
  obtain root where root: "root \<in> set doc"
    "h' \<in> set (concat (map (elements_of []) (remove_matches sel [] root)))"
    using assms by (auto simp: all_elements_def remove_all_def)
  from remove_matches_elements[OF root(2)] root(1)
  show ?thesis by (auto simp: all_elements_def)
qed

text \<open>A selector that matches nothing removes nothing.\<close>

lemma concat_singletons: "(\<And>x. x \<in> set xs \<Longrightarrow> f x = [x]) \<Longrightarrow> concat (map f xs) = xs"
  by (induction xs) auto

lemma remove_matches_none:
  "(\<And>h. h \<in> set (elements_of anc root) \<Longrightarrow> \<not> sel h) \<Longrightarrow> remove_matches sel anc root = [root]"
proof (induction root arbitrary: anc)
  case (Text s)
  then show ?case by simp
next
  case (Element r t c d a k)
  let ?self = "Element r t c d a k"
  have "remove_matches sel (?self # anc) kid = [kid]" if "kid \<in> set k" for kid
    using Element.IH[OF that, of "?self # anc"] Element.prems that by auto
  then have "concat (map (remove_matches sel (?self # anc)) k) = k"
    by (rule concat_singletons)
  moreover have "\<not> sel (?self, anc)" using Element.prems by simp
  ultimately show ?case by simp
qed

lemma remove_all_none:
  "(\<And>h. h \<in> set (all_elements doc) \<Longrightarrow> \<not> sel h) \<Longrightarrow> remove_all sel doc = doc"
  unfolding remove_all_def
  by (rule concat_singletons, rule remove_matches_none) (auto simp: all_elements_def)

lemma polluting_iff:
  "polluting rid (fst h) \<longleftrightarrow> sel_id rid h \<or> sel_id_prefix (CHR ''d'' # rid) h"
  by (auto simp: polluting_def sel_id_def sel_id_prefix_def split: option.splits)

lemma selectors_polluting:
  "sel_id (CHR ''d'' # rid) h \<or> sel_id rid h \<or> sel_id_prefix (CHR ''d'' # rid) h \<or>
   sel_error_svg rid h \<Longrightarrow> polluting rid (fst h)"
  by (auto simp: polluting_def sel_id_def sel_id_prefix_def sel_error_svg_def split: option.splits)

text \<open>A removal, and so a cleanup for any id, keeps a page clean of a render id.\<close>

lemma remove_all_clean: "clean_of rid doc \<Longrightarrow> clean_of rid (remove_all sel doc)"
  unfolding clean_of_def list_all_iff
  using remove_all_elements[of _ sel doc] by (metis polluting_def)

lemma cleanup_clean:
  "clean_of rid doc \<Longrightarrow> clean_of rid (cleanupMermaidErrorElements reader rid' doc)"
proof -
  have "clean_of rid d \<Longrightarrow>
    clean_of rid (fold (\<lambda>selector d. case reader selector of None \<Rightarrow> d
                                      | Some sel \<Rightarrow> remove_all sel d) ss d)" for ss d
    by (induction ss arbitrary: d) (auto simp: remove_all_clean split: option.splits)
  then show "clean_of rid doc \<Longrightarrow> clean_of rid (cleanupMermaidErrorElements reader rid' doc)"
    by (simp add: cleanupMermaidErrorElements_def)
qed

text \<open>After a cleanup for a render id the page is clean of it.\<close>

lemma cleanup_as_removals:
  assumes "reads_id_selectors reader" "css_ident rid" "css_string_ok rid"
  shows "cleanupMermaidErrorElements reader rid doc =
     remove_all (sel_error_svg rid)
       (remove_all (sel_id_prefix (CHR ''d'' # rid))
          (remove_all (sel_id rid) (remove_all (sel_id (CHR ''d'' # rid)) doc)))"
proof -
  have "cleanupMermaidErrorElements reader rid doc =
      fold (\<lambda>selector d. case selector of None \<Rightarrow> d | Some sel \<Rightarrow> remove_all sel d)
        (map reader (errorSelectors rid)) doc"
    by (simp add: cleanupMermaidErrorElements_def fold_map comp_def)
  then show ?thesis
    by (simp add: reads_errorSelectors[OF assms])
qed

lemma cleanup_removes:
  assumes "reads_id_selectors reader" "css_ident rid" "css_string_ok rid"
  shows "clean_of rid (cleanupMermaidErrorElements reader rid doc)"
proof -
  let ?d1 = "remove_all (sel_id (CHR ''d'' # rid)) doc"
  let ?d2 = "remove_all (sel_id rid) ?d1"
  let ?d3 = "remove_all (sel_id_prefix (CHR ''d'' # rid)) ?d2"
  let ?d4 = "remove_all (sel_error_svg rid) ?d3"
  have "\<not> polluting rid (fst h)" if hin: "h \<in> set (all_elements ?d4)" for h
  proof -
    obtain h3 where h3: "h3 \<in> set (all_elements ?d3)" "getAttribute (fst h) = getAttribute (fst h3)"
      using hin remove_all_elements by blast
    then obtain h2 where h2: "h2 \<in> set (all_elements ?d2)"
      "getAttribute (fst h3) = getAttribute (fst h2)" "\<not> sel_id_prefix (CHR ''d'' # rid) h2"
      using remove_all_elements by blast
    then obtain h1 where h1: "h1 \<in> set (all_elements ?d1)"
      "getAttribute (fst h2) = getAttribute (fst h1)" "\<not> sel_id rid h1"
      using remove_all_elements by blast
    have "\<not> sel_id_prefix (CHR ''d'' # rid) h"
      using h2(3) h3(2) h2(2) by (simp add: sel_id_prefix_def)
    moreover have "\<not> sel_id rid h" using h1(3) h1(2) h2(2) h3(2) by (simp add: sel_id_def)
    ultimately show ?thesis by (simp add: polluting_iff)
  qed
  then show ?thesis
    unfolding cleanup_as_removals[OF assms] clean_of_def list_all_iff by blast
qed

text \<open>A page that is clean of a render id is left as it is by a cleanup for it.\<close>

lemma cleanup_noop:
  assumes "reads_id_selectors reader" "css_ident rid" "css_string_ok rid" "clean_of rid doc"
  shows "cleanupMermaidErrorElements reader rid doc = doc"
proof -
  have c: "\<not> polluting rid (fst h)" if "h \<in> set (all_elements doc)" for h
    using assms(4) that by (simp add: clean_of_def list_all_iff)
  have 1: "remove_all (sel_id (CHR ''d'' # rid)) doc = doc"
    by (rule remove_all_none) (use c selectors_polluting in blast)
  have 2: "remove_all (sel_id rid) doc = doc"
    by (rule remove_all_none) (use c selectors_polluting in blast)
  have 3: "remove_all (sel_id_prefix (CHR ''d'' # rid)) doc = doc"
    by (rule remove_all_none) (use c selectors_polluting in blast)
  have 4: "remove_all (sel_error_svg rid) doc = doc"
    by (rule remove_all_none) (use c selectors_polluting in blast)
  show ?thesis
    unfolding cleanup_as_removals[OF assms(1-3)] 1 2 3 4 by (rule refl)
qed

text \<open>The timers: each runs its cleanup on the page as it then is.\<close>

lemma fold_call_cleanup:
  "cleanupCalls (fold call_cleanup ts w) = cleanupCalls w @ ts \<and>
   timers (fold call_cleanup ts w) = timers w \<and>
   readSelector (fold call_cleanup ts w) = readSelector w \<and>
   document (fold call_cleanup ts w) =
     fold (cleanupMermaidErrorElements (readSelector w)) ts (document w)"
  by (induction ts arbitrary: w) (auto simp: call_cleanup_def)

lemma fold_cleanup_clean:
  assumes "reads_id_selectors reader" "css_ident rid" "css_string_ok rid"
    "rid \<in> set ts \<or> clean_of rid doc"
  shows "clean_of rid (fold (cleanupMermaidErrorElements reader) ts doc)"
  using assms(4)
proof (induction ts arbitrary: doc)
  case Nil
  then show ?case by simp
next
  case (Cons t ts)
  have "rid \<in> set ts \<or> clean_of rid (cleanupMermaidErrorElements reader t doc)"
  proof (cases "rid \<in> set ts")
    case True
    then show ?thesis by simp
  next
    case False
    then have "t = rid \<or> clean_of rid doc" using Cons.prems by auto
    then show ?thesis
      using cleanup_removes[OF assms(1-3), of doc] cleanup_clean[of rid doc reader t] by auto
  qed
  from Cons.IH[OF this] show ?case by simp
qed

lemma run_timers_effect:
  "cleanupCalls (run_timers v) = cleanupCalls v @ timers v \<and> timers (run_timers v) = [] \<and>
   document (run_timers v) =
     fold (cleanupMermaidErrorElements (readSelector v)) (timers v) (document v)"
  unfolding run_timers_def by (simp add: fold_call_cleanup)

section \<open>Properties of the transform engine\<close>

text \<open>The first half of \<open>renderMermaidBlock\<close>.\<close>

lemma start_Awaiting:
  assumes "renderMermaidBlock_start thr el cfg w = (Awaiting p, w1)"
  shows "p = \<lparr>p_element = el, p_config = cfg, p_sourceCode = extractSourceCode el cfg,
              p_wrapper = createPreservingWrapper (nextRef w) (extractSourceCode el cfg),
              p_uniqueId = render_id (renderCounter w + 1)\<rparr> \<and>
         w1 = w\<lparr>nextRef := nextRef w + 4, renderCounter := renderCounter w + 1\<rparr> \<and>
         extractSourceCode el cfg \<noteq> [] \<and> \<not> thr ExtractSource \<and> \<not> thr BuildWrapper"
  using assms
  by (auto simp: renderMermaidBlock_start_def start_body_def Let_def split: if_splits)

lemma start_Finished:
  assumes "renderMermaidBlock_start thr el cfg w = (Finished r, w1)"
  shows "r = None \<and> w1 = w \<and>
         (thr ExtractSource \<or> extractSourceCode el cfg = [] \<or> thr BuildWrapper)"
  using assms
  by (auto simp: renderMermaidBlock_start_def start_body_def Let_def split: if_splits)

lemma start_no_fault:
  assumes "\<not> thr ExtractSource" "extractSourceCode el cfg \<noteq> []" "\<not> thr BuildWrapper"
  shows "renderMermaidBlock_start thr el cfg w =
     (Awaiting \<lparr>p_element = el, p_config = cfg, p_sourceCode = extractSourceCode el cfg,
                p_wrapper = createPreservingWrapper (nextRef w) (extractSourceCode el cfg),
                p_uniqueId = render_id (renderCounter w + 1)\<rparr>,
      w\<lparr>nextRef := nextRef w + 4, renderCounter := renderCounter w + 1\<rparr>)"
  using assms by (simp add: renderMermaidBlock_start_def start_body_def Let_def)

lemma start_fault:
  "thr ExtractSource \<or> extractSourceCode el cfg = [] \<or> thr BuildWrapper \<Longrightarrow>
   renderMermaidBlock_start thr el cfg w = (Finished None, w)"
  by (auto simp: renderMermaidBlock_start_def start_body_def Let_def)

text \<open>The toggle and the commit.\<close>

lemma attach_and_commit_log:
  "timers (snd (attach_and_commit thr p wr e w)) = timers w \<and>
   cleanupCalls (snd (attach_and_commit thr p wr e w)) = cleanupCalls w \<and>
   renderCounter (snd (attach_and_commit thr p wr e w)) = renderCounter w \<and>
   frameCallbacks (snd (attach_and_commit thr p wr e w)) = frameCallbacks w"
  by (simp add: attach_and_commit_def Let_def split: option.splits)

lemma attach_and_commit_result:
  "fst (attach_and_commit thr p wr e w) =
     (if thr AttachToggle then Inl AttachToggle
      else if thr Commit then Inl Commit
      else Inr (Some (container
             (wr\<lparr>sourceWrapper := sourceEl (createToggleButton (nextRef w) (sourceWrapper wr) (renderedDiv wr) e),
                 renderedDiv := renderedEl (createToggleButton (nextRef w) (sourceWrapper wr) (renderedDiv wr) e),
                 appended := appended wr @ [button (createToggleButton (nextRef w) (sourceWrapper wr) (renderedDiv wr) e)]\<rparr>))))"
  by (simp add: attach_and_commit_def Let_def split: option.splits)

text \<open>Replacing an element of the page puts the new node into the page.\<close>

lemma elements_are_elements: "h \<in> set (elements_of anc root) \<Longrightarrow> node_ref (fst h) \<noteq> None"
  by (induction root arbitrary: anc) auto

lemma replace_in_contains:
  assumes "(n, a) \<in> set (elements_of anc root)" "node_ref n = Some r" "node_ref new \<noteq> None"
  shows "new \<in> fst ` set (elements_of anc' (replace_in r new root))"
  using assms
proof (induction root arbitrary: anc anc')
  case (Text s)
  then show ?case by simp
next
  case (Element r' t c d at k)
  let ?self = "Element r' t c d at k"
  show ?case
  proof (cases "r' = r")
    case True
    obtain r2 t2 c2 d2 a2 k2 where new: "new = Element r2 t2 c2 d2 a2 k2"
      using Element.prems(3) by (cases new) auto
    show ?thesis using True by (simp add: new)
  next
    case False
    then have "(n, a) \<noteq> (?self, anc)" using Element.prems(2) by auto
    then obtain kid where kid: "kid \<in> set k" "(n, a) \<in> set (elements_of (?self # anc) kid)"
      using Element.prems(1) by auto
    let ?new_self = "Element r' t c d at (map (replace_in r new) k)"
    have "new \<in> fst ` set (elements_of (?new_self # anc') (replace_in r new kid))"
      using Element.IH[OF kid(1) kid(2) Element.prems(2,3)] .
    then show ?thesis using False kid(1) by auto
  qed
qed

lemma replaceWith_contains:
  assumes "h \<in> set (all_elements doc)" "node_ref new \<noteq> None"
  shows "in_document new (replaceWith h new doc)"
proof -
  obtain n a where h: "h = (n, a)" by (cases h)
  obtain root where root: "root \<in> set doc" "(n, a) \<in> set (elements_of [] root)"
    using assms(1) h by (auto simp: all_elements_def)
  obtain r where r: "node_ref n = Some r"
    using elements_are_elements[OF root(2)] by auto
  have "new \<in> fst ` set (elements_of [] (replace_in r new root))"
    using replace_in_contains[OF root(2) r assms(2)] .
  then show ?thesis
    using root(1) r h by (force simp: in_document_def replaceWith_def all_elements_def)
qed

lemma getWrapperToReplace_in_doc:
  assumes "e \<in> set (all_elements doc)"
  shows "getWrapperToReplace e config \<in> set (all_elements doc)"
proof (cases "parentElement e")
  case None
  then show ?thesis using assms by (simp add: getWrapperToReplace_def)
next
  case (Some q)
  then have "q \<in> set (all_elements doc)"
    using all_elements_parent[of "fst e" "fst q" "snd q" doc] assms
    by (cases e) (auto simp: parentElement_def split: list.splits)
  then show ?thesis using assms Some by (simp add: getWrapperToReplace_def)
qed

lemma current_handle_in_doc:
  "current_handle doc el = Some e \<Longrightarrow> e \<in> set (all_elements doc)"
  by (auto simp: current_handle_def find_element_def find_Some_iff split: option.splits)

lemma container_ref: "node_ref (container wr) \<noteq> None"
  by (simp add: container_def createElement_def)

lemma attach_and_commit_in_doc:
  assumes "attach_and_commit thr p wr e w = (Inr (Some c), w')"
    "current_handle (document w) (p_element p) \<noteq> None"
  shows "in_document c (document w')"
proof -
  obtain el where el: "current_handle (document w) (p_element p) = Some el"
    using assms(2) by auto
  let ?tb = "createToggleButton (nextRef w) (sourceWrapper wr) (renderedDiv wr) e"
  let ?wr = "wr\<lparr>sourceWrapper := sourceEl ?tb, renderedDiv := renderedEl ?tb,
                 appended := appended wr @ [button ?tb]\<rparr>"
  have c: "c = container ?wr" and
    w': "document w' = replaceWith (getWrapperToReplace el (p_config p)) (container ?wr) (document w)"
    using assms(1) el by (auto simp: attach_and_commit_def Let_def split: if_splits)
  have "getWrapperToReplace el (p_config p) \<in> set (all_elements (document w))"
    using current_handle_in_doc[OF el] by (rule getWrapperToReplace_in_doc)
  then show ?thesis
    unfolding c w' by (rule replaceWith_contains) (rule container_ref)
qed

lemma source_region_kept:
  assumes "attach_and_commit thr p wr e w = (Inr (Some c), w')"
    "sourceWrapper wr = sourceWrapper (createPreservingWrapper r src)"
  shows "preserves_source src c \<and>
         getAttribute c ''data-mpr-processed'' = Some ''true'' \<and>
         map_option display (source_region c) = Some (if e then ''block'' else ''none'')"
proof -
  let ?tb = "createToggleButton (nextRef w) (sourceWrapper wr) (renderedDiv wr) e"
  let ?wr = "wr\<lparr>sourceWrapper := sourceEl ?tb, renderedDiv := renderedEl ?tb,
                 appended := appended wr @ [button ?tb]\<rparr>"
  have c: "c = container ?wr"
    using assms(1) by (auto simp: attach_and_commit_def Let_def split: if_splits option.splits)
  have s: "sourceWrapper wr =
      Element (r + 1) ''pre'' [''mpr-source''] ''none'' []
        [Element (r + 2) ''code'' [''language-mermaid''] [] [] (if src = [] then [] else [Text src])]"
    unfolding assms(2)
    by (simp add: createPreservingWrapper_def createElement_def set_textContent_def)
  show ?thesis
    unfolding c
    by (simp add: container_def createElement_def createToggleButton_def Let_def s
        preserves_source_def source_region_def)
qed

text \<open>A sweep.\<close>

lemma dispatch_all_view:
  "map dispatched (fst (dispatch_all thr cfg blocks w)) =
     map (\<lambda>b. if thr b ExtractSource \<or> extractSourceCode b cfg = [] \<or> thr b BuildWrapper
              then None else Some (b, extractSourceCode b cfg)) blocks \<and>
   document (snd (dispatch_all thr cfg blocks w)) = document w \<and>
   timers (snd (dispatch_all thr cfg blocks w)) = timers w \<and>
   cleanupCalls (snd (dispatch_all thr cfg blocks w)) = cleanupCalls w"
proof (induction blocks arbitrary: w)
  case Nil
  then show ?case by simp
next
  case (Cons b bs)
  obtain r w1 where s: "renderMermaidBlock_start (thr b) b cfg w = (r, w1)"
    by (cases "renderMermaidBlock_start (thr b) b cfg w")
  have 1: "dispatched r = (if thr b ExtractSource \<or> extractSourceCode b cfg = [] \<or> thr b BuildWrapper
              then None else Some (b, extractSourceCode b cfg))"
    and 2: "document w1 = document w \<and> timers w1 = timers w \<and> cleanupCalls w1 = cleanupCalls w"
    using start_Awaiting[of "thr b" b cfg w] start_Finished[of "thr b" b cfg w] s
    by (cases r; auto simp: dispatched_def)+
  obtain rs w2 where d: "dispatch_all thr cfg bs w1 = (rs, w2)"
    by (cases "dispatch_all thr cfg bs w1")
  have IH: "map dispatched rs =
     map (\<lambda>b. if thr b ExtractSource \<or> extractSourceCode b cfg = [] \<or> thr b BuildWrapper
              then None else Some (b, extractSourceCode b cfg)) bs \<and>
     document w2 = document w1 \<and> timers w2 = timers w1 \<and> cleanupCalls w2 = cleanupCalls w1"
    using Cons.IH[of w1] d by simp
  show ?case
    using s d 1 2 IH by simp
qed

lemma run_frame_callbacks_length:
  "length (fst (run_frame_callbacks n thr cfg w)) = n"
proof (induction n arbitrary: w)
  case 0
  then show ?case by simp
next
  case (Suc n)
  obtain sw w1 where p: "processExistingBlocks thr cfg w = (sw, w1)"
    by (cases "processExistingBlocks thr cfg w")
  obtain sws w2 where r: "run_frame_callbacks n thr cfg w1 = (sws, w2)"
    by (cases "run_frame_callbacks n thr cfg w1")
  show ?case using Suc[of w1] p r by simp
qed

text \<open>What the second half of \<open>renderMermaidBlock\<close> returns.\<close>

lemma catch_fst:
  "fst (case x of (Inl e, w') \<Rightarrow> (None, w') | (Inr r, w') \<Rightarrow> (r, w')) =
     (case fst x of Inl e \<Rightarrow> None | Inr r \<Rightarrow> r)"
  by (cases x) (auto split: sum.splits)

lemma catch_snd:
  "snd (case x of (Inl e, w') \<Rightarrow> (None :: node option, w') | (Inr r, w') \<Rightarrow> (r, w')) = snd x"
  by (cases x) (auto split: sum.splits)

lemma resume_fst:
  "fst (renderMermaidBlock_resume thr inject p outcome w) =
     (case fst (resume_body thr inject p outcome w) of Inl e \<Rightarrow> None | Inr r \<Rightarrow> r)"
  unfolding renderMermaidBlock_resume_def by (rule catch_fst)

lemma resume_snd:
  "snd (renderMermaidBlock_resume thr inject p outcome w) = snd (resume_body thr inject p outcome w)"
  unfolding renderMermaidBlock_resume_def by (rule catch_snd)

lemma parse_details_nonempty:
  "details (parseErrorMessage err) \<noteq> Some [] \<and>
   userMessage (parseErrorMessage err) = ''Failed to render diagram'' \<and>
   originalError (parseErrorMessage err) = errorToString err"
  by (simp add: parseErrorMessage_def Let_def split: option.splits)

lemma createErrorElement_presentation:
  "createErrorElement r (parseErrorMessage err) =
     error_presentation r (details (parseErrorMessage err))"
  using parse_details_nonempty[of err]
  by (simp add: createErrorElement_def error_presentation_def createElement_def
      set_textContent_def Let_def split: option.splits)

lemma resume_error_log:
  assumes "inner_try inject outcome = Inl err"
  shows "cleanupCalls (snd (renderMermaidBlock_resume thr inject p outcome w)) =
           cleanupCalls w @ [p_uniqueId p] \<and>
         timers (snd (renderMermaidBlock_resume thr inject p outcome w)) =
           timers w @ [p_uniqueId p] \<and>
         readSelector (snd (renderMermaidBlock_resume thr inject p outcome w)) = readSelector w"
  unfolding resume_snd
  by (simp add: resume_body_def Let_def assms attach_and_commit_log call_cleanup_def
      attach_and_commit_def split: option.splits)

lemma resume_error_result:
  assumes "p_wrapper p = createPreservingWrapper r src" "inner_try inject outcome = Inl err"
  shows "fst (renderMermaidBlock_resume thr inject p outcome w) =
     (if thr FormatError \<or> thr AttachToggle \<or> thr Commit then None
      else Some (Element r ''div'' [''mpr-container''] [] [(''data-mpr-processed'', ''true'')]
        [Element (r + 1) ''pre'' [''mpr-source''] ''block'' []
           [Element (r + 2) ''code'' [''language-mermaid''] [] []
              (if src = [] then [] else [Text src])],
         Element (r + 3) ''div'' [''mpr-rendered'', ''mpr-error-container''] ''block'' []
           [error_presentation (nextRef w) (details (parseErrorMessage err))],
         Element (nextRef w + 4) ''button'' [''mpr-toggle''] []
           [(''title'', ''Show diagram''),
            (''aria-label'', ''Toggle between source code and diagram'')]
           [Text play_icon]]))"
  unfolding resume_fst
  by (simp add: resume_body_def Let_def attach_and_commit_result assms call_cleanup_def
      container_def createPreservingWrapper_def createElement_def set_textContent_def
      createToggleButton_def createErrorElement_presentation play_icon_def)

lemma resume_ok_result:
  assumes "p_wrapper p = createPreservingWrapper r src" "inner_try inject outcome = Inr svg"
  shows "fst (renderMermaidBlock_resume thr inject p outcome w) =
     (if thr AttachToggle \<or> thr Commit then None
      else Some (Element r ''div'' [''mpr-container''] [] [(''data-mpr-processed'', ''true'')]
        [Element (r + 1) ''pre'' [''mpr-source''] ''none'' []
           [Element (r + 2) ''code'' [''language-mermaid''] [] []
              (if src = [] then [] else [Text src])],
         Element (r + 3) ''div'' [''mpr-rendered''] [] [] svg,
         Element (nextRef w) ''button'' [''mpr-toggle''] []
           [(''title'', ''Show source code''),
            (''aria-label'', ''Toggle between source code and diagram'')]
           [Text ''{ }'']]))"
  unfolding resume_fst
  by (simp add: resume_body_def Let_def attach_and_commit_result assms
      container_def createPreservingWrapper_def createElement_def set_textContent_def
      createToggleButton_def)

lemma resume_fault_None:
  "thr AttachToggle \<or> thr Commit \<or> (hasError inject outcome \<and> thr FormatError) \<Longrightarrow>
   fst (renderMermaidBlock_resume thr inject p outcome w) = None"
  unfolding resume_fst
  by (cases "inner_try inject outcome")
     (auto simp: resume_body_def Let_def attach_and_commit_result hasError_def)

text \<open>The page after the second half.\<close>

lemma resume_ok_document:
  assumes "inner_try inject outcome = Inr svg"
  shows "document (snd (renderMermaidBlock_resume thr inject p outcome w)) =
     (if thr AttachToggle \<or> thr Commit then document w
      else case current_handle (document w) (p_element p) of
             None \<Rightarrow> document w
           | Some e \<Rightarrow>
               replaceWith (getWrapperToReplace e (p_config p))
                 (the (fst (renderMermaidBlock_resume thr inject p outcome w))) (document w))"
  unfolding resume_snd resume_fst
  by (simp add: resume_body_def Let_def assms attach_and_commit_def split: option.splits)

lemma resume_error_document:
  assumes "inner_try inject outcome = Inl err"
  shows "document (snd (renderMermaidBlock_resume thr inject p outcome w)) =
     (if thr FormatError \<or> thr AttachToggle \<or> thr Commit
      then cleanupMermaidErrorElements (readSelector w) (p_uniqueId p) (document w)
      else case current_handle
                  (cleanupMermaidErrorElements (readSelector w) (p_uniqueId p) (document w))
                  (p_element p) of
             None \<Rightarrow> cleanupMermaidErrorElements (readSelector w) (p_uniqueId p) (document w)
           | Some e \<Rightarrow>
               replaceWith (getWrapperToReplace e (p_config p))
                 (the (fst (renderMermaidBlock_resume thr inject p outcome w)))
                 (cleanupMermaidErrorElements (readSelector w) (p_uniqueId p) (document w)))"
  unfolding resume_snd resume_fst
  by (simp add: resume_body_def Let_def assms attach_and_commit_def call_cleanup_def
      split: option.splits)

text \<open>Replacing an element by a node without polluting elements keeps a page clean.\<close>

lemma elements_of_fst:
  "fst ` set (elements_of a n) = fst ` set (elements_of b n)"
proof (induction n arbitrary: a b)
  case (Text s)
  then show ?case by simp
next
  case (Element r t c d at k)
  let ?self = "Element r t c d at k"
  have "fst ` set (elements_of (?self # a) kid) = fst ` set (elements_of (?self # b) kid)"
    if "kid \<in> set k" for kid
    using Element.IH[OF that] .
  then show ?case by (simp add: image_UN)
qed

lemma replace_in_elements:
  assumes "h' \<in> set (elements_of anc' (replace_in r new root))"
  shows "(\<exists>h\<in>set (elements_of anc root). getAttribute (fst h') = getAttribute (fst h)) \<or>
         fst h' \<in> fst ` set (elements_of [] new)"
  using assms
proof (induction root arbitrary: anc anc' h')
  case (Text s)
  then show ?case by simp
next
  case (Element r' t c d at k)
  let ?self = "Element r' t c d at k"
  show ?case
  proof (cases "r' = r")
    case True
    then have "fst h' \<in> fst ` set (elements_of anc' new)" using Element.prems by auto
    then show ?thesis using elements_of_fst[of anc' new "[]"] by simp
  next
    case False
    let ?new_self = "Element r' t c d at (map (replace_in r new) k)"
    have "h' = (?new_self, anc') \<or>
          (\<exists>kid\<in>set k. h' \<in> set (elements_of (?new_self # anc') (replace_in r new kid)))"
      using Element.prems False by auto
    then show ?thesis
    proof
      assume "h' = (?new_self, anc')"
      then have "getAttribute (fst h') = getAttribute (fst (?self, anc))" by (auto intro: ext)
      then show ?thesis by (intro disjI1 bexI[of _ "(?self, anc)"]) simp_all
    next
      assume "\<exists>kid\<in>set k. h' \<in> set (elements_of (?new_self # anc') (replace_in r new kid))"
      then obtain kid where kid: "kid \<in> set k"
        "h' \<in> set (elements_of (?new_self # anc') (replace_in r new kid))" by blast
      from Element.IH[OF kid(1) kid(2), of "?self # anc"]
      show ?thesis using kid(1) by auto
    qed
  qed
qed

lemma replaceWith_clean:
  assumes "clean_of rid doc" "\<And>h. h \<in> set (elements_of [] new) \<Longrightarrow> \<not> polluting rid (fst h)"
  shows "clean_of rid (replaceWith target new doc)"
proof (cases "node_ref (fst target)")
  case None
  then show ?thesis using assms(1) by (simp add: replaceWith_def)
next
  case (Some r)
  have "\<not> polluting rid (fst h')" if h': "h' \<in> set (all_elements (map (replace_in r new) doc))" for h'
  proof -
    obtain root where root: "root \<in> set doc" "h' \<in> set (elements_of [] (replace_in r new root))"
      using h' by (auto simp: all_elements_def)
    from replace_in_elements[OF root(2), of "[]"]
    show ?thesis
    proof
      assume "\<exists>h\<in>set (elements_of [] root). getAttribute (fst h') = getAttribute (fst h)"
      then obtain h where h: "h \<in> set (elements_of [] root)"
        "getAttribute (fst h') = getAttribute (fst h)" by blast
      then have "h \<in> set (all_elements doc)" using root(1) by (auto simp: all_elements_def)
      then have "\<not> polluting rid (fst h)" using assms(1) by (simp add: clean_of_def list_all_iff)
      then show ?thesis using h(2) by (simp add: polluting_def)
    next
      assume "fst h' \<in> fst ` set (elements_of [] new)"
      then show ?thesis using assms(2) by auto
    qed
  qed
  then show ?thesis using Some by (simp add: replaceWith_def clean_of_def list_all_iff)
qed

lemma resume_Some:
  assumes "renderMermaidBlock_resume thr inject p outcome w = (Some c, w')"
  shows "\<exists>wr wa. attach_and_commit thr p wr (hasError inject outcome) wa = (Inr (Some c), w') \<and>
           document wa = (if hasError inject outcome
                          then cleanupMermaidErrorElements (readSelector w) (p_uniqueId p) (document w)
                          else document w) \<and>
           sourceWrapper wr = sourceWrapper (p_wrapper p)"
proof (cases "inner_try inject outcome")
  case (Inr svg)
  have "attach_and_commit thr p
          ((p_wrapper p)\<lparr>renderedDiv := set_childNodes svg (renderedDiv (p_wrapper p))\<rparr>)
          False w = (Inr (Some c), w')"
    using assms Inr
    by (auto simp: renderMermaidBlock_resume_def resume_body_def Let_def
        split: if_splits prod.splits sum.splits)
  then show ?thesis
    using Inr by (auto simp: hasError_def intro!: exI)
next
  case (Inl err)
  let ?w1 = "call_cleanup (p_uniqueId p) w"
  let ?w2 = "?w1\<lparr>timers := timers ?w1 @ [p_uniqueId p]\<rparr>"
  let ?rd = "classList_add ''mpr-error-container''
        (appendChild (createErrorElement (nextRef ?w2) (parseErrorMessage err))
           (set_childNodes [] (renderedDiv (p_wrapper p))))"
  have "attach_and_commit thr p ((p_wrapper p)\<lparr>renderedDiv := ?rd\<rparr>) True
          (?w2\<lparr>nextRef := nextRef ?w2 + 4\<rparr>) = (Inr (Some c), w')"
    using assms Inl
    by (auto simp: renderMermaidBlock_resume_def resume_body_def Let_def
        split: if_splits prod.splits sum.splits)
  moreover have "document (?w2\<lparr>nextRef := nextRef ?w2 + 4\<rparr>) =
      cleanupMermaidErrorElements (readSelector w) (p_uniqueId p) (document w)"
    by (simp add: call_cleanup_def)
  ultimately show ?thesis
    using Inl by (auto simp: hasError_def intro!: exI)
qed

lemma error_artifact_clean:
  assumes "p_wrapper p = createPreservingWrapper r src" "inner_try inject outcome = Inl err"
    "fst (renderMermaidBlock_resume thr inject p outcome w) = Some c"
    "h \<in> set (elements_of [] c)"
  shows "\<not> polluting rid (fst h)"
  using assms(3,4) unfolding resume_error_result[OF assms(1,2)]
  by (auto simp: error_presentation_def polluting_def split: if_splits option.splits)

lemma resume_error_clean:
  assumes "reads_id_selectors (readSelector w)" "css_ident (p_uniqueId p)"
    "css_string_ok (p_uniqueId p)"
    "p_wrapper p = createPreservingWrapper r src" "inner_try inject outcome = Inl err"
  shows "clean_of (p_uniqueId p) (document (snd (renderMermaidBlock_resume thr inject p outcome w)))"
proof -
  let ?R = "renderMermaidBlock_resume thr inject p outcome w"
  let ?D = "cleanupMermaidErrorElements (readSelector w) (p_uniqueId p) (document w)"
  have D: "clean_of (p_uniqueId p) ?D" using assms(1-3) by (rule cleanup_removes)
  show ?thesis
  proof (cases "thr FormatError \<or> thr AttachToggle \<or> thr Commit")
    case True
    then show ?thesis using D by (simp add: resume_error_document[OF assms(5)])
  next
    case False
    then obtain c where c: "fst ?R = Some c"
      using resume_error_result[OF assms(4,5), of thr w] by simp
    have new: "\<not> polluting (p_uniqueId p) (fst h)" if "h \<in> set (elements_of [] c)" for h
      using error_artifact_clean[OF assms(4,5) c that] .
    show ?thesis
    proof (cases "current_handle ?D (p_element p)")
      case None
      then show ?thesis using D False by (simp add: resume_error_document[OF assms(5)])
    next
      case (Some e)
      have "clean_of (p_uniqueId p) (replaceWith (getWrapperToReplace e (p_config p)) c ?D)"
        using D new by (rule replaceWith_clean)
      then show ?thesis using Some False c by (simp add: resume_error_document[OF assms(5)])
    qed
  qed
qed

lemma example_start:
  "renderMermaidBlock_start no_throw fresh_block chatgpt_config example_world =
     (Awaiting example_pending, example_world_started)"
proof -
  have e: "extractSourceCode fresh_block chatgpt_config = ''graph TD; A-->B;''" by code_simp
  have r: "render_id (Suc 0) = ''mpr-diagram-1''" by code_simp
  show ?thesis
    by (simp add: renderMermaidBlock_start_def start_body_def Let_def no_throw_def e r
        example_pending_def example_world_started_def example_world_def)
qed

lemma example_find: "findUnprocessedMermaidBlocks chatgpt_config example_page = [fresh_block]"
  by code_simp

text \<open>
  Claim C1, as amended. When the extracted text is empty, no artifact is produced and
  the page is left as it is. Whenever an artifact is produced, its container is marked
  as processed and holds, inside the source region, one \<open>code\<close> element with the class
  \<open>language-mermaid\<close> whose text is the extracted (trimmed) source, unchanged; the source
  region is hidden when the render resolved and its markup was injected, and shown when
  the render call rejected or the injection threw; and when the candidate still stands
  in the page, the artifact stands in the page afterwards. With a non-empty source and
  no statement outside the inner \<open>try\<close> block throwing, an artifact is produced.
\<close>

theorem source_preserved:
  "(extractSourceCode el cfg = [] \<longrightarrow>
      renderMermaidBlock_start thr el cfg w = (Finished None, w) \<and>
      renderMermaidBlock thr inject outcome el cfg w = (None, w)) \<and>
   (renderMermaidBlock_start thr el cfg w = (Awaiting p, w1) \<and>
    renderMermaidBlock_resume thr' inject p outcome w2 = (Some c, w3) \<longrightarrow>
      extractSourceCode el cfg \<noteq> [] \<and>
      preserves_source (extractSourceCode el cfg) c \<and>
      getAttribute c ''data-mpr-processed'' = Some ''true'' \<and>
      map_option display (source_region c) =
        Some (if hasError inject outcome then ''block'' else ''none'') \<and>
      (current_handle
         (if hasError inject outcome
          then cleanupMermaidErrorElements (readSelector w2) (p_uniqueId p) (document w2)
          else document w2) el \<noteq> None
       \<longrightarrow> in_document c (document w3))) \<and>
   (extractSourceCode el cfg \<noteq> [] \<and> \<not> thr ExtractSource \<and> \<not> thr BuildWrapper \<and>
    \<not> thr FormatError \<and> \<not> thr AttachToggle \<and> \<not> thr Commit \<longrightarrow>
      fst (renderMermaidBlock thr inject outcome el cfg w) \<noteq> None) \<and>
   (platform cfg \<noteq> Grok \<longrightarrow> extractSourceCode el cfg = trim (textContent (fst el))) \<and>
   hasError inject outcome = (inject \<noteq> None \<or> (\<exists>err. outcome = Rejected err))"
proof (intro conjI impI)
  assume "extractSourceCode el cfg = []"
  then show "renderMermaidBlock_start thr el cfg w = (Finished None, w)"
    by (simp add: start_fault)
next
  assume "extractSourceCode el cfg = []"
  then show "renderMermaidBlock thr inject outcome el cfg w = (None, w)"
    by (simp add: renderMermaidBlock_def start_fault)
next
  assume a: "renderMermaidBlock_start thr el cfg w = (Awaiting p, w1) \<and>
    renderMermaidBlock_resume thr' inject p outcome w2 = (Some c, w3)"
  then show "extractSourceCode el cfg \<noteq> []" using start_Awaiting by blast
next
  assume a: "renderMermaidBlock_start thr el cfg w = (Awaiting p, w1) \<and>
    renderMermaidBlock_resume thr' inject p outcome w2 = (Some c, w3)"
  have p: "p_wrapper p = createPreservingWrapper (nextRef w) (extractSourceCode el cfg)"
    using a start_Awaiting[of thr el cfg w p w1] by simp
  obtain wr wa where r: "attach_and_commit thr' p wr (hasError inject outcome) wa = (Inr (Some c), w3)"
    "sourceWrapper wr = sourceWrapper (p_wrapper p)"
    using a resume_Some[of thr' inject p outcome w2 c w3] by blast
  have k: "preserves_source (extractSourceCode el cfg) c \<and>
      getAttribute c ''data-mpr-processed'' = Some ''true'' \<and>
      map_option display (source_region c) =
        Some (if hasError inject outcome then ''block'' else ''none'')"
    using source_region_kept[OF r(1), of "nextRef w" "extractSourceCode el cfg"] r(2) p by simp
  show "preserves_source (extractSourceCode el cfg) c" using k by simp
  show "getAttribute c ''data-mpr-processed'' = Some ''true''" using k by simp
  show "map_option display (source_region c) =
        Some (if hasError inject outcome then ''block'' else ''none'')" using k by simp
next
  assume a: "renderMermaidBlock_start thr el cfg w = (Awaiting p, w1) \<and>
    renderMermaidBlock_resume thr' inject p outcome w2 = (Some c, w3)"
    and h: "current_handle
         (if hasError inject outcome
          then cleanupMermaidErrorElements (readSelector w2) (p_uniqueId p) (document w2)
          else document w2) el \<noteq> None"
  have p: "p_element p = el"
    using a start_Awaiting[of thr el cfg w p w1] by simp
  obtain wr wa where r: "attach_and_commit thr' p wr (hasError inject outcome) wa = (Inr (Some c), w3)"
    "document wa = (if hasError inject outcome
                    then cleanupMermaidErrorElements (readSelector w2) (p_uniqueId p) (document w2)
                    else document w2)"
    using a resume_Some[of thr' inject p outcome w2 c w3] by blast
  show "in_document c (document w3)"
    using attach_and_commit_in_doc[OF r(1)] h p r(2) by simp
next
  assume a: "extractSourceCode el cfg \<noteq> [] \<and> \<not> thr ExtractSource \<and> \<not> thr BuildWrapper \<and>
    \<not> thr FormatError \<and> \<not> thr AttachToggle \<and> \<not> thr Commit"
  let ?p = "\<lparr>p_element = el, p_config = cfg, p_sourceCode = extractSourceCode el cfg,
                p_wrapper = createPreservingWrapper (nextRef w) (extractSourceCode el cfg),
                p_uniqueId = render_id (renderCounter w + 1)\<rparr>"
  have w: "p_wrapper ?p = createPreservingWrapper (nextRef w) (extractSourceCode el cfg)"
    by simp
  show "fst (renderMermaidBlock thr inject outcome el cfg w) \<noteq> None"
  proof (cases "inner_try inject outcome")
    case (Inl err)
    then show ?thesis
      using a resume_error_result[OF w Inl, of thr]
      by (simp add: renderMermaidBlock_def start_no_fault)
  next
    case (Inr svg)
    then show ?thesis
      using a resume_ok_result[OF w Inr, of thr]
      by (simp add: renderMermaidBlock_def start_no_fault)
  qed
next
  assume "platform cfg \<noteq> Grok"
  then show "extractSourceCode el cfg = trim (textContent (fst el))"
    by (simp add: extractSourceCode_def)
next
  show "hasError inject outcome = (inject \<noteq> None \<or> (\<exists>err. outcome = Rejected err))"
    by (cases outcome; cases inject) (simp_all add: hasError_def inner_try_def)
qed

text \<open>
  The claim as first stated fails for a failed render: the artifact is produced with the
  source region shown, not hidden.
\<close>

theorem source_region_shown_counterexample:
  "map_option (\<lambda>c. map_option display (source_region c))
     (fst (renderMermaidBlock no_throw None (Rejected (ErrorObject ''Parse error on line 1''))
             fresh_block chatgpt_config example_world)) = Some (Some ''block'')"
proof -
  have w: "p_wrapper example_pending = createPreservingWrapper 100 ''graph TD; A-->B;''"
    by (simp add: example_pending_def)
  have i: "inner_try None (Rejected (ErrorObject ''Parse error on line 1'')) =
      Inl (ErrorObject ''Parse error on line 1'')"
    by (simp add: inner_try_def)
  show ?thesis
    by (simp add: renderMermaidBlock_def example_start resume_error_result[OF w i]
        no_throw_def source_region_def)
qed

theorem source_preserved_witness:
  "extractSourceCode empty_block chatgpt_config = [] \<and>
   renderMermaidBlock no_throw None (Resolved example_svg) empty_block chatgpt_config
     example_world = (None, example_world) \<and>
   renderMermaidBlock_start no_throw fresh_block chatgpt_config example_world =
     (Awaiting example_pending, example_world_started) \<and>
   fst (renderMermaidBlock_resume no_throw None example_pending (Resolved example_svg)
          example_world_started) \<noteq> None \<and>
   extractSourceCode fresh_block chatgpt_config = ''graph TD; A-->B;'' \<and>
   preserves_source (extractSourceCode fresh_block chatgpt_config)
     (the (fst (renderMermaidBlock_resume no_throw None example_pending (Resolved example_svg)
                  example_world_started))) \<and>
   map_option display (source_region
     (the (fst (renderMermaidBlock_resume no_throw None example_pending (Resolved example_svg)
                  example_world_started)))) = Some ''none'' \<and>
   current_handle (document example_world_started) fresh_block \<noteq> None \<and>
   in_document
     (the (fst (renderMermaidBlock_resume no_throw None example_pending (Resolved example_svg)
                  example_world_started)))
     (document (snd (renderMermaidBlock_resume no_throw None example_pending
                  (Resolved example_svg) example_world_started))) \<and>
   fst (renderMermaidBlock no_throw None (Resolved example_svg) fresh_block chatgpt_config
          example_world) \<noteq> None \<and>
   platform chatgpt_config \<noteq> Grok \<and>
   extractSourceCode fresh_block chatgpt_config = trim (textContent (fst fresh_block))"
proof -
  let ?R = "renderMermaidBlock_resume no_throw None example_pending (Resolved example_svg)
              example_world_started"
  have e: "extractSourceCode empty_block chatgpt_config = []" by code_simp
  have s: "extractSourceCode fresh_block chatgpt_config = ''graph TD; A-->B;''" by code_simp
  have w: "p_wrapper example_pending = createPreservingWrapper 100 ''graph TD; A-->B;''"
    by (simp add: example_pending_def)
  have i: "inner_try None (Resolved example_svg) = Inr example_svg"
    by (simp add: inner_try_def)
  have ne: "\<not> hasError None (Resolved example_svg)"
    by (simp add: hasError_def i)
  have 1: "fst ?R \<noteq> None"
    by (simp add: resume_ok_result[OF w i] no_throw_def)
  then have 2: "?R = (Some (the (fst ?R)), snd ?R)"
    by (simp add: prod_eq_iff)
  have h0: "current_handle example_page fresh_block \<noteq> None" by code_simp
  then have h: "current_handle (document example_world_started) fresh_block \<noteq> None"
    by (simp add: example_world_started_def example_world_def)
  then have h': "current_handle
         (if hasError None (Resolved example_svg)
          then cleanupMermaidErrorElements (readSelector example_world_started)
                 (p_uniqueId example_pending) (document example_world_started)
          else document example_world_started) fresh_block \<noteq> None"
    using ne by simp
  note T1 = source_preserved[where el = empty_block and cfg = chatgpt_config and thr = no_throw
      and w = example_world and outcome = "Resolved example_svg" and inject = None]
  note T2 = source_preserved[where el = fresh_block and cfg = chatgpt_config and thr = no_throw
      and w = example_world and outcome = "Resolved example_svg" and inject = None
      and p = example_pending
      and ?w1.0 = example_world_started and thr' = no_throw and ?w2.0 = example_world_started
      and c = "the (fst ?R)" and ?w3.0 = "snd ?R"]
  have a: "renderMermaidBlock no_throw None (Resolved example_svg) empty_block chatgpt_config
             example_world = (None, example_world)"
    using T1 e by blast
  have b: "preserves_source (extractSourceCode fresh_block chatgpt_config) (the (fst ?R))"
    using T2 example_start 2 by blast
  have d: "map_option display (source_region (the (fst ?R))) =
      Some (if hasError None (Resolved example_svg) then ''block'' else ''none'')"
    using T2 example_start 2 by blast
  then have d': "map_option display (source_region (the (fst ?R))) = Some ''none''"
    using ne by simp
  have c: "in_document (the (fst ?R)) (document (snd ?R))"
    using T2 example_start 2 h' by blast
  have nt: "\<not> no_throw ExtractSource \<and> \<not> no_throw BuildWrapper \<and> \<not> no_throw FormatError \<and>
      \<not> no_throw AttachToggle \<and> \<not> no_throw Commit"
    by (simp add: no_throw_def)
  have ne': "extractSourceCode fresh_block chatgpt_config \<noteq> []" using s by simp
  have f: "fst (renderMermaidBlock no_throw None (Resolved example_svg) fresh_block
             chatgpt_config example_world) \<noteq> None"
    using T2 ne' nt by blast
  have g0: "platform chatgpt_config \<noteq> Grok" by (simp add: chatgpt_config_def)
  have g: "extractSourceCode fresh_block chatgpt_config = trim (textContent (fst fresh_block))"
    using T2 g0 by blast
  show ?thesis
    using e a example_start 1 s b d' h c f g0 g by blast
qed

section \<open>Cleanup after a failed render\<close>

text \<open>
  Claim C3. When the render of a candidate fails (the render call rejects, or taking and
  injecting its markup throws), \<open>cleanupMermaidErrorElements\<close> is called with the
  candidate's render id once at once, and a second call with the same id waits as a timer
  and runs at the next turn of the event loop: two calls in all. The page after the
  failure is the cleaned page, with the artifact in the candidate's place when it was
  committed, and no element of it has the render id as its id, or an id that starts with
  \<open>d\<close> and the render id, which covers the error-role element with that id. Whatever
  page the waiting call finds at the next turn, no such element is left after it, and a
  page with no such element is left as it is. The display region then holds the error
  presentation (title, details, hint) made from the parsed error, in place of markup,
  and carries the class \<open>mpr-error-container\<close>. The selectors are read by the page's
  selector engine, which is taken to read id, attribute-prefix and error-role selectors
  of well-formed render ids as CSS does.
\<close>

theorem render_failure_cleanup:
  "renderMermaidBlock_start thr0 el cfg w0 = (Awaiting p, w1) \<and>
   inner_try inject outcome = Inl err \<longrightarrow>
     p_uniqueId p = render_id (renderCounter w0 + 1) \<and>
     cleanupCalls (snd (renderMermaidBlock_resume thr inject p outcome w)) =
       cleanupCalls w @ [p_uniqueId p] \<and>
     timers (snd (renderMermaidBlock_resume thr inject p outcome w)) =
       timers w @ [p_uniqueId p] \<and>
     cleanupCalls (run_timers (snd (renderMermaidBlock_resume thr inject p outcome w))) =
       cleanupCalls w @ [p_uniqueId p] @ timers w @ [p_uniqueId p] \<and>
     timers (run_timers (snd (renderMermaidBlock_resume thr inject p outcome w))) = [] \<and>
     count_list (cleanupCalls (run_timers (snd (renderMermaidBlock_resume thr inject p outcome w))))
       (p_uniqueId p) =
       count_list (cleanupCalls w) (p_uniqueId p) + count_list (timers w) (p_uniqueId p) + 2 \<and>
     document (snd (renderMermaidBlock_resume thr inject p outcome w)) =
       (if thr FormatError \<or> thr AttachToggle \<or> thr Commit
        then cleanupMermaidErrorElements (readSelector w) (p_uniqueId p) (document w)
        else case current_handle
                    (cleanupMermaidErrorElements (readSelector w) (p_uniqueId p) (document w))
                    el of
               None \<Rightarrow> cleanupMermaidErrorElements (readSelector w) (p_uniqueId p) (document w)
             | Some e \<Rightarrow>
                 replaceWith (getWrapperToReplace e cfg)
                   (the (fst (renderMermaidBlock_resume thr inject p outcome w)))
                   (cleanupMermaidErrorElements (readSelector w) (p_uniqueId p) (document w))) \<and>
     document (run_timers
         ((snd (renderMermaidBlock_resume thr inject p outcome w))\<lparr>document := d\<rparr>)) =
       fold (cleanupMermaidErrorElements (readSelector w)) (timers w @ [p_uniqueId p]) d \<and>
     (reads_id_selectors (readSelector w) \<longrightarrow>
        clean_of (p_uniqueId p) (cleanupMermaidErrorElements (readSelector w) (p_uniqueId p) d) \<and>
        (clean_of (p_uniqueId p) d \<longrightarrow>
           cleanupMermaidErrorElements (readSelector w) (p_uniqueId p) d = d) \<and>
        clean_of (p_uniqueId p)
          (document (snd (renderMermaidBlock_resume thr inject p outcome w))) \<and>
        clean_of (p_uniqueId p)
          (document (run_timers
             ((snd (renderMermaidBlock_resume thr inject p outcome w))\<lparr>document := d\<rparr>)))) \<and>
     (\<not> thr FormatError \<and> \<not> thr AttachToggle \<and> \<not> thr Commit \<longrightarrow>
        (\<exists>c. fst (renderMermaidBlock_resume thr inject p outcome w) = Some c \<and>
             display_region c =
               Some (Element (nextRef w0 + 3) ''div'' [''mpr-rendered'', ''mpr-error-container'']
                       ''block'' []
                       [error_presentation (nextRef w) (details (parseErrorMessage err))]))) \<and>
     createErrorElement (nextRef w) (parseErrorMessage err) =
       error_presentation (nextRef w) (details (parseErrorMessage err)) \<and>
     originalError (parseErrorMessage err) = errorToString err"
proof
  assume a0: "renderMermaidBlock_start thr0 el cfg w0 = (Awaiting p, w1) \<and>
   inner_try inject outcome = Inl err"
  then have a: "renderMermaidBlock_start thr0 el cfg w0 = (Awaiting p, w1)"
    and i: "inner_try inject outcome = Inl err" by simp_all
  let ?R = "renderMermaidBlock_resume thr inject p outcome w"
  let ?id = "p_uniqueId p"
  let ?rd = "readSelector w"
  have id: "?id = render_id (renderCounter w0 + 1)"
    and wr: "p_wrapper p = createPreservingWrapper (nextRef w0) (extractSourceCode el cfg)"
    and pe: "p_element p = el" and pc: "p_config p = cfg"
    using start_Awaiting[OF a] by simp_all
  have valid: "css_ident ?id" "css_string_ok ?id"
    using render_id_valid[of "renderCounter w0 + 1"] id by simp_all
  have log: "cleanupCalls (snd ?R) = cleanupCalls w @ [?id]" "timers (snd ?R) = timers w @ [?id]"
    "readSelector (snd ?R) = ?rd"
    using resume_error_log[OF i, of thr p w] by simp_all
  have run: "cleanupCalls (run_timers (snd ?R)) = cleanupCalls w @ [?id] @ timers w @ [?id]"
    "timers (run_timers (snd ?R)) = []"
    by (simp_all add: run_timers_effect log)
  have cnt: "count_list (cleanupCalls (run_timers (snd ?R))) ?id =
       count_list (cleanupCalls w) ?id + count_list (timers w) ?id + 2"
    by (simp add: run)
  have doc: "document (snd ?R) =
       (if thr FormatError \<or> thr AttachToggle \<or> thr Commit
        then cleanupMermaidErrorElements ?rd ?id (document w)
        else case current_handle (cleanupMermaidErrorElements ?rd ?id (document w)) el of
               None \<Rightarrow> cleanupMermaidErrorElements ?rd ?id (document w)
             | Some e \<Rightarrow>
                 replaceWith (getWrapperToReplace e cfg) (the (fst ?R))
                   (cleanupMermaidErrorElements ?rd ?id (document w)))"
    unfolding resume_error_document[OF i, of thr p w] pe pc ..
  have later: "document (run_timers ((snd ?R)\<lparr>document := d\<rparr>)) =
       fold (cleanupMermaidErrorElements ?rd) (timers w @ [?id]) d"
    by (simp add: run_timers_effect log)
  have rem: "reads_id_selectors ?rd \<longrightarrow>
        clean_of ?id (cleanupMermaidErrorElements ?rd ?id d) \<and>
        (clean_of ?id d \<longrightarrow> cleanupMermaidErrorElements ?rd ?id d = d) \<and>
        clean_of ?id (document (snd ?R)) \<and>
        clean_of ?id (document (run_timers ((snd ?R)\<lparr>document := d\<rparr>)))"
  proof
    assume r: "reads_id_selectors ?rd"
    have 1: "clean_of ?id (cleanupMermaidErrorElements ?rd ?id d)"
      using r valid by (rule cleanup_removes)
    have 2: "clean_of ?id d \<longrightarrow> cleanupMermaidErrorElements ?rd ?id d = d"
      using cleanup_noop[OF r valid] by blast
    have 3: "clean_of ?id (document (snd ?R))"
      using r valid wr i by (rule resume_error_clean)
    have "clean_of ?id (fold (cleanupMermaidErrorElements ?rd) (timers w @ [?id]) d)"
      by (rule fold_cleanup_clean[OF r valid]) simp
    then have 4: "clean_of ?id (document (run_timers ((snd ?R)\<lparr>document := d\<rparr>)))"
      by (simp only: later)
    show "clean_of ?id (cleanupMermaidErrorElements ?rd ?id d) \<and>
        (clean_of ?id d \<longrightarrow> cleanupMermaidErrorElements ?rd ?id d = d) \<and>
        clean_of ?id (document (snd ?R)) \<and>
        clean_of ?id (document (run_timers ((snd ?R)\<lparr>document := d\<rparr>)))"
      using 1 2 3 4 by blast
  qed
  have disp: "\<not> thr FormatError \<and> \<not> thr AttachToggle \<and> \<not> thr Commit \<longrightarrow>
        (\<exists>c. fst ?R = Some c \<and>
             display_region c =
               Some (Element (nextRef w0 + 3) ''div'' [''mpr-rendered'', ''mpr-error-container'']
                       ''block'' []
                       [error_presentation (nextRef w) (details (parseErrorMessage err))]))"
    by (simp add: resume_error_result[OF wr i] display_region_def)
  have pres: "createErrorElement (nextRef w) (parseErrorMessage err) =
       error_presentation (nextRef w) (details (parseErrorMessage err))"
    by (rule createErrorElement_presentation)
  have orig: "originalError (parseErrorMessage err) = errorToString err"
    using parse_details_nonempty[of err] by simp
  show "?id = render_id (renderCounter w0 + 1) \<and>
     cleanupCalls (snd ?R) = cleanupCalls w @ [?id] \<and>
     timers (snd ?R) = timers w @ [?id] \<and>
     cleanupCalls (run_timers (snd ?R)) = cleanupCalls w @ [?id] @ timers w @ [?id] \<and>
     timers (run_timers (snd ?R)) = [] \<and>
     count_list (cleanupCalls (run_timers (snd ?R))) ?id =
       count_list (cleanupCalls w) ?id + count_list (timers w) ?id + 2 \<and>
     document (snd ?R) =
       (if thr FormatError \<or> thr AttachToggle \<or> thr Commit
        then cleanupMermaidErrorElements ?rd ?id (document w)
        else case current_handle (cleanupMermaidErrorElements ?rd ?id (document w)) el of
               None \<Rightarrow> cleanupMermaidErrorElements ?rd ?id (document w)
             | Some e \<Rightarrow>
                 replaceWith (getWrapperToReplace e cfg) (the (fst ?R))
                   (cleanupMermaidErrorElements ?rd ?id (document w))) \<and>
     document (run_timers ((snd ?R)\<lparr>document := d\<rparr>)) =
       fold (cleanupMermaidErrorElements ?rd) (timers w @ [?id]) d \<and>
     (reads_id_selectors ?rd \<longrightarrow>
        clean_of ?id (cleanupMermaidErrorElements ?rd ?id d) \<and>
        (clean_of ?id d \<longrightarrow> cleanupMermaidErrorElements ?rd ?id d = d) \<and>
        clean_of ?id (document (snd ?R)) \<and>
        clean_of ?id (document (run_timers ((snd ?R)\<lparr>document := d\<rparr>)))) \<and>
     (\<not> thr FormatError \<and> \<not> thr AttachToggle \<and> \<not> thr Commit \<longrightarrow>
        (\<exists>c. fst ?R = Some c \<and>
             display_region c =
               Some (Element (nextRef w0 + 3) ''div'' [''mpr-rendered'', ''mpr-error-container'']
                       ''block'' []
                       [error_presentation (nextRef w) (details (parseErrorMessage err))]))) \<and>
     createErrorElement (nextRef w) (parseErrorMessage err) =
       error_presentation (nextRef w) (details (parseErrorMessage err)) \<and>
     originalError (parseErrorMessage err) = errorToString err"
    using id log(1,2) run cnt doc later rem disp pres orig by blast
qed

theorem render_failure_cleanup_witness:
  "renderMermaidBlock_start no_throw fresh_block chatgpt_config example_world =
     (Awaiting example_pending, example_world_started) \<and>
   inner_try None (Rejected (ErrorObject ''Parse error on line 1'')) =
     Inl (ErrorObject ''Parse error on line 1'') \<and>
   inner_try (Some (ErrorObject ''boom'')) (Resolved example_svg) = Inl (ErrorObject ''boom'') \<and>
   reads_id_selectors (readSelector polluted_world) \<and>
   p_uniqueId example_pending = ''mpr-diagram-1'' \<and>
   \<not> clean_of ''mpr-diagram-1'' polluted_page \<and>
   clean_of ''mpr-diagram-1'' cleaned_page \<and>
   count_list (cleanupCalls (run_timers (snd (renderMermaidBlock_resume no_throw None
      example_pending (Rejected (ErrorObject ''Parse error on line 1'')) polluted_world))))
      ''mpr-diagram-1'' = 2 \<and>
   clean_of ''mpr-diagram-1'' (document (snd (renderMermaidBlock_resume no_throw None
      example_pending (Rejected (ErrorObject ''Parse error on line 1'')) polluted_world))) \<and>
   document (run_timers ((snd (renderMermaidBlock_resume no_throw None
      example_pending (Rejected (ErrorObject ''Parse error on line 1'')) polluted_world))
        \<lparr>document := polluted_page\<rparr>)) = cleaned_page \<and>
   document (run_timers ((snd (renderMermaidBlock_resume no_throw None
      example_pending (Rejected (ErrorObject ''Parse error on line 1'')) polluted_world))
        \<lparr>document := cleaned_page\<rparr>)) = cleaned_page \<and>
   map_option display_region (fst (renderMermaidBlock_resume no_throw None
      example_pending (Rejected (ErrorObject ''Parse error on line 1'')) polluted_world)) =
     Some (Some (Element 103 ''div'' [''mpr-rendered'', ''mpr-error-container''] ''block'' []
       [error_presentation 104 (Some ''Syntax error on line 1'')])) \<and>
   clean_of ''mpr-diagram-1'' (document (snd (renderMermaidBlock_resume no_throw
      (Some (ErrorObject ''boom'')) example_pending (Resolved example_svg) polluted_world))) \<and>
   map_option display_region (fst (renderMermaidBlock_resume no_throw
      (Some (ErrorObject ''boom'')) example_pending (Resolved example_svg) polluted_world)) =
     Some (Some (Element 103 ''div'' [''mpr-rendered'', ''mpr-error-container''] ''block'' []
       [error_presentation 104 None]))"
proof -
  let ?e = "ErrorObject ''Parse error on line 1''"
  let ?b = "ErrorObject ''boom''"
  let ?R = "renderMermaidBlock_resume no_throw None example_pending (Rejected ?e) polluted_world"
  let ?S = "renderMermaidBlock_resume no_throw (Some ?b) example_pending (Resolved example_svg)
              polluted_world"
  have i1: "inner_try None (Rejected ?e) = Inl ?e" by (simp add: inner_try_def)
  have i2: "inner_try (Some ?b) (Resolved example_svg) = Inl ?b" by (simp add: inner_try_def)
  have rs: "readSelector polluted_world = example_reader"
    by (simp add: polluted_world_def example_world_started_def example_world_def)
  have rd: "reads_id_selectors (readSelector polluted_world)"
    unfolding rs by (rule example_reader_reads)
  have uid: "p_uniqueId example_pending = ''mpr-diagram-1''"
    by (simp add: example_pending_def)
  have w: "nextRef polluted_world = 104" "nextRef example_world = 100"
    "timers polluted_world = []" "cleanupCalls polluted_world = []"
    by (simp_all add: polluted_world_def example_world_started_def example_world_def)
  have nt: "\<not> no_throw FormatError \<and> \<not> no_throw AttachToggle \<and> \<not> no_throw Commit"
    by (simp add: no_throw_def)
  have d1: "details (parseErrorMessage ?e) = Some ''Syntax error on line 1''" by code_simp
  have d2: "details (parseErrorMessage ?b) = None" by code_simp
  have pol: "\<not> clean_of ''mpr-diagram-1'' polluted_page" by code_simp
  have cln: "clean_of ''mpr-diagram-1'' cleaned_page" by code_simp
  have rem: "cleanupMermaidErrorElements example_reader ''mpr-diagram-1'' polluted_page =
      cleaned_page" by code_simp
  note A = render_failure_cleanup[where ?thr0.0 = no_throw and el = fresh_block
      and cfg = chatgpt_config and ?w0.0 = example_world and p = example_pending
      and ?w1.0 = example_world_started and inject = None and outcome = "Rejected ?e"
      and err = ?e and thr = no_throw and w = polluted_world and d = polluted_page]
  note B = render_failure_cleanup[where ?thr0.0 = no_throw and el = fresh_block
      and cfg = chatgpt_config and ?w0.0 = example_world and p = example_pending
      and ?w1.0 = example_world_started and inject = None and outcome = "Rejected ?e"
      and err = ?e and thr = no_throw and w = polluted_world and d = cleaned_page]
  note C = render_failure_cleanup[where ?thr0.0 = no_throw and el = fresh_block
      and cfg = chatgpt_config and ?w0.0 = example_world and p = example_pending
      and ?w1.0 = example_world_started and inject = "Some ?b"
      and outcome = "Resolved example_svg"
      and err = ?b and thr = no_throw and w = polluted_world and d = polluted_page]
  have c0: "count_list (cleanupCalls (run_timers (snd ?R))) (p_uniqueId example_pending) =
      count_list (cleanupCalls polluted_world) (p_uniqueId example_pending) +
      count_list (timers polluted_world) (p_uniqueId example_pending) + 2"
    using A example_start i1 by blast
  have c: "count_list (cleanupCalls (run_timers (snd ?R))) ''mpr-diagram-1'' = 2"
    using c0 by (simp add: uid w)
  have k0: "clean_of (p_uniqueId example_pending) (document (snd ?R))"
    using A example_start i1 rd by blast
  have k: "clean_of ''mpr-diagram-1'' (document (snd ?R))" using k0 by (simp add: uid)
  have t0: "document (run_timers ((snd ?R)\<lparr>document := polluted_page\<rparr>)) =
      fold (cleanupMermaidErrorElements (readSelector polluted_world))
        (timers polluted_world @ [p_uniqueId example_pending]) polluted_page"
    using A example_start i1 by blast
  have t: "document (run_timers ((snd ?R)\<lparr>document := polluted_page\<rparr>)) = cleaned_page"
    unfolding t0 by (simp add: rs w uid rem)
  have n0: "clean_of (p_uniqueId example_pending) cleaned_page \<longrightarrow>
      cleanupMermaidErrorElements (readSelector polluted_world) (p_uniqueId example_pending)
        cleaned_page = cleaned_page"
    using B example_start i1 rd by blast
  have n1: "document (run_timers ((snd ?R)\<lparr>document := cleaned_page\<rparr>)) =
      fold (cleanupMermaidErrorElements (readSelector polluted_world))
        (timers polluted_world @ [p_uniqueId example_pending]) cleaned_page"
    using B example_start i1 by blast
  have n: "document (run_timers ((snd ?R)\<lparr>document := cleaned_page\<rparr>)) = cleaned_page"
    unfolding n1 using n0 cln by (simp add: rs w uid)
  have p0: "\<exists>c. fst ?R = Some c \<and> display_region c =
      Some (Element (nextRef example_world + 3) ''div'' [''mpr-rendered'', ''mpr-error-container'']
        ''block'' [] [error_presentation (nextRef polluted_world) (details (parseErrorMessage ?e))])"
    using A example_start i1 nt by blast
  have p: "map_option display_region (fst ?R) =
     Some (Some (Element 103 ''div'' [''mpr-rendered'', ''mpr-error-container''] ''block'' []
       [error_presentation 104 (Some ''Syntax error on line 1'')]))"
    using p0 by (auto simp: w d1)
  have q0: "clean_of (p_uniqueId example_pending) (document (snd ?S))"
    using C example_start i2 rd by blast
  have q: "clean_of ''mpr-diagram-1'' (document (snd ?S))" using q0 by (simp add: uid)
  have r0: "\<exists>c. fst ?S = Some c \<and> display_region c =
      Some (Element (nextRef example_world + 3) ''div'' [''mpr-rendered'', ''mpr-error-container'']
        ''block'' [] [error_presentation (nextRef polluted_world) (details (parseErrorMessage ?b))])"
    using C example_start i2 nt by blast
  have r: "map_option display_region (fst ?S) =
     Some (Some (Element 103 ''div'' [''mpr-rendered'', ''mpr-error-container''] ''block'' []
       [error_presentation 104 None]))"
    using r0 by (auto simp: w d2)
  show ?thesis
    using example_start i1 i2 rd uid pol cln c k t n p q r by blast
qed

section \<open>Containment of failures and sweeps\<close>

text \<open>
  Claim C8, as amended. A failure of the render step, be it the render call rejecting or
  a throw while its markup is taken and injected, is caught inside the function, by the
  inner \<open>catch\<close>, and gives an artifact that shows the error. Every other exception
  thrown while a candidate is processed, at the extraction, the building of the wrapper,
  the formatting of the error in the inner handler, the toggle or the commit, is caught
  at the boundary of the function and gives no artifact; the page is then as it was, but
  for the cleanup after a failed render. No exception leaves the function. In a sweep
  every block is dispatched, and what is started for a block depends on that block alone.
\<close>

theorem failure_containment:
  "(start_body thr el cfg w = (Inl s, w') \<longrightarrow>
      renderMermaidBlock_start thr el cfg w = (Finished None, w')) \<and>
   (resume_body thr inject p outcome w = (Inl s, w') \<longrightarrow>
      renderMermaidBlock_resume thr inject p outcome w = (None, w')) \<and>
   (thr ExtractSource \<or> thr BuildWrapper \<longrightarrow>
      renderMermaidBlock_start thr el cfg w = (Finished None, w)) \<and>
   (inner_try inject outcome = Inr svg \<and> (thr AttachToggle \<or> thr Commit) \<longrightarrow>
      fst (renderMermaidBlock_resume thr inject p outcome w) = None \<and>
      document (snd (renderMermaidBlock_resume thr inject p outcome w)) = document w) \<and>
   (inner_try inject outcome = Inl err \<and> (thr FormatError \<or> thr AttachToggle \<or> thr Commit) \<longrightarrow>
      fst (renderMermaidBlock_resume thr inject p outcome w) = None \<and>
      document (snd (renderMermaidBlock_resume thr inject p outcome w)) =
        cleanupMermaidErrorElements (readSelector w) (p_uniqueId p) (document w)) \<and>
   (renderMermaidBlock_start thr0 el0 cfg w0 = (Awaiting p, w1) \<and>
    inner_try inject outcome = Inl err \<and>
    \<not> thr FormatError \<and> \<not> thr AttachToggle \<and> \<not> thr Commit \<longrightarrow>
      fst (renderMermaidBlock_resume thr inject p outcome w) \<noteq> None) \<and>
   inner_try inject (Rejected err) = Inl err \<and>
   inner_try (Some err) (Resolved svg) = Inl err \<and>
   inner_try None (Resolved svg) = Inr svg \<and>
   map dispatched (fst (dispatch_all thrs cfg blocks w)) =
     map (\<lambda>b. if thrs b ExtractSource \<or> extractSourceCode b cfg = [] \<or> thrs b BuildWrapper
              then None else Some (b, extractSourceCode b cfg)) blocks \<and>
   document (snd (dispatch_all thrs cfg blocks w)) = document w \<and>
   processExistingBlocks thrs cfg w =
     dispatch_all thrs cfg (findUnprocessedMermaidBlocks cfg (document w)) w"
proof -
  let ?R = "renderMermaidBlock_resume thr inject p outcome w"
  have 1: "start_body thr el cfg w = (Inl s, w') \<longrightarrow>
      renderMermaidBlock_start thr el cfg w = (Finished None, w')"
    by (simp add: renderMermaidBlock_start_def)
  have 2: "resume_body thr inject p outcome w = (Inl s, w') \<longrightarrow>
      renderMermaidBlock_resume thr inject p outcome w = (None, w')"
    by (simp add: renderMermaidBlock_resume_def)
  have 3: "thr ExtractSource \<or> thr BuildWrapper \<longrightarrow>
      renderMermaidBlock_start thr el cfg w = (Finished None, w)"
    using start_fault[of thr el cfg w] by blast
  have 4: "inner_try inject outcome = Inr svg \<and> (thr AttachToggle \<or> thr Commit) \<longrightarrow>
      fst ?R = None \<and> document (snd ?R) = document w"
  proof
    assume a: "inner_try inject outcome = Inr svg \<and> (thr AttachToggle \<or> thr Commit)"
    then have i: "inner_try inject outcome = Inr svg" and t: "thr AttachToggle \<or> thr Commit"
      by simp_all
    have "fst ?R = None" using resume_fault_None[of thr inject outcome p w] t by blast
    moreover have "document (snd ?R) = document w"
      using resume_ok_document[OF i, of thr p w] t by simp
    ultimately show "fst ?R = None \<and> document (snd ?R) = document w" by simp
  qed
  have 5: "inner_try inject outcome = Inl err \<and>
      (thr FormatError \<or> thr AttachToggle \<or> thr Commit) \<longrightarrow>
      fst ?R = None \<and>
      document (snd ?R) = cleanupMermaidErrorElements (readSelector w) (p_uniqueId p) (document w)"
  proof
    assume a: "inner_try inject outcome = Inl err \<and>
      (thr FormatError \<or> thr AttachToggle \<or> thr Commit)"
    then have i: "inner_try inject outcome = Inl err"
      and t: "thr FormatError \<or> thr AttachToggle \<or> thr Commit"
      by simp_all
    have h: "hasError inject outcome" by (simp add: hasError_def i)
    have "fst ?R = None" using resume_fault_None[of thr inject outcome p w] t h by blast
    moreover have "document (snd ?R) =
        cleanupMermaidErrorElements (readSelector w) (p_uniqueId p) (document w)"
      using resume_error_document[OF i, of thr p w] t by simp
    ultimately show "fst ?R = None \<and>
      document (snd ?R) = cleanupMermaidErrorElements (readSelector w) (p_uniqueId p) (document w)"
      by simp
  qed
  have 6: "renderMermaidBlock_start thr0 el0 cfg w0 = (Awaiting p, w1) \<and>
    inner_try inject outcome = Inl err \<and>
    \<not> thr FormatError \<and> \<not> thr AttachToggle \<and> \<not> thr Commit \<longrightarrow> fst ?R \<noteq> None"
  proof
    assume a: "renderMermaidBlock_start thr0 el0 cfg w0 = (Awaiting p, w1) \<and>
      inner_try inject outcome = Inl err \<and>
      \<not> thr FormatError \<and> \<not> thr AttachToggle \<and> \<not> thr Commit"
    then have i: "inner_try inject outcome = Inl err" by simp
    have wr: "p_wrapper p = createPreservingWrapper (nextRef w0) (extractSourceCode el0 cfg)"
      using a start_Awaiting[of thr0 el0 cfg w0 p w1] by simp
    from resume_error_result[OF wr i, of thr w] a
    show "fst ?R \<noteq> None" by simp
  qed
  have 7: "inner_try inject (Rejected err) = Inl err" "inner_try (Some err) (Resolved svg) = Inl err"
    "inner_try None (Resolved svg) = Inr svg"
    by (simp_all add: inner_try_def)
  show ?thesis
    using 1 2 3 4 5 6 7 dispatch_all_view[of thrs cfg blocks w]
    by (simp add: processExistingBlocks_def)
qed

theorem failure_containment_witness:
  "start_body (throws_at ExtractSource) fresh_block chatgpt_config example_world =
     (Inl ExtractSource, example_world) \<and>
   renderMermaidBlock_start (throws_at ExtractSource) fresh_block chatgpt_config example_world =
     (Finished None, example_world) \<and>
   throws_at BuildWrapper BuildWrapper \<and>
   renderMermaidBlock_start (throws_at BuildWrapper) fresh_block chatgpt_config example_world =
     (Finished None, example_world) \<and>
   throws_at Commit Commit \<and>
   inner_try None (Resolved example_svg) = Inr example_svg \<and>
   fst (renderMermaidBlock_resume (throws_at Commit) None example_pending (Resolved example_svg)
          example_world_started) = None \<and>
   document (snd (renderMermaidBlock_resume (throws_at Commit) None example_pending
                    (Resolved example_svg) example_world_started)) =
     document example_world_started \<and>
   resume_body (throws_at Commit) None example_pending (Resolved example_svg)
     example_world_started = (Inl Commit, example_world_started\<lparr>nextRef := 105\<rparr>) \<and>
   renderMermaidBlock_resume (throws_at Commit) None example_pending (Resolved example_svg)
     example_world_started = (None, example_world_started\<lparr>nextRef := 105\<rparr>) \<and>
   throws_at FormatError FormatError \<and>
   inner_try None (Rejected (OtherValue ''x'')) = Inl (OtherValue ''x'') \<and>
   fst (renderMermaidBlock_resume (throws_at FormatError) None example_pending
          (Rejected (OtherValue ''x'')) example_world_started) = None \<and>
   renderMermaidBlock_start no_throw fresh_block chatgpt_config example_world =
     (Awaiting example_pending, example_world_started) \<and>
   \<not> no_throw FormatError \<and> \<not> no_throw AttachToggle \<and> \<not> no_throw Commit \<and>
   fst (renderMermaidBlock_resume no_throw None example_pending (Rejected (OtherValue ''x''))
          example_world_started) \<noteq> None \<and>
   inner_try (Some (OtherValue ''y'')) (Resolved example_svg) = Inl (OtherValue ''y'') \<and>
   fst (renderMermaidBlock_resume no_throw (Some (OtherValue ''y'')) example_pending
          (Resolved example_svg) example_world_started) \<noteq> None"
proof -
  have b: "start_body (throws_at ExtractSource) fresh_block chatgpt_config example_world =
     (Inl ExtractSource, example_world)"
    by (simp add: start_body_def throws_at_def)
  have t: "throws_at BuildWrapper BuildWrapper" "throws_at Commit Commit"
    "throws_at FormatError FormatError"
    by (simp_all add: throws_at_def)
  have n: "\<not> no_throw FormatError \<and> \<not> no_throw AttachToggle \<and> \<not> no_throw Commit"
    by (simp add: no_throw_def)
  have i: "inner_try None (Resolved example_svg) = Inr example_svg"
    "inner_try None (Rejected (OtherValue ''x'')) = Inl (OtherValue ''x'')"
    "inner_try (Some (OtherValue ''y'')) (Resolved example_svg) = Inl (OtherValue ''y'')"
    by (simp_all add: inner_try_def)
  have rb: "resume_body (throws_at Commit) None example_pending (Resolved example_svg)
     example_world_started = (Inl Commit, example_world_started\<lparr>nextRef := 105\<rparr>)"
    by (simp add: resume_body_def attach_and_commit_def i(1) throws_at_def Let_def
        example_world_started_def example_world_def)
  note T1 = failure_containment[where thr = "throws_at ExtractSource" and el = fresh_block
      and cfg = chatgpt_config and w = example_world and s = ExtractSource and w' = example_world]
  note T2 = failure_containment[where thr = "throws_at BuildWrapper" and el = fresh_block
      and cfg = chatgpt_config and w = example_world]
  note T3 = failure_containment[where thr = "throws_at Commit" and p = example_pending
      and inject = None and outcome = "Resolved example_svg"
      and svg = example_svg and w = example_world_started and s = Commit
      and w' = "example_world_started\<lparr>nextRef := 105\<rparr>"]
  note T4 = failure_containment[where thr = "throws_at FormatError" and p = example_pending
      and inject = None and outcome = "Rejected (OtherValue ''x'')"
      and err = "OtherValue ''x''" and w = example_world_started]
  note T5 = failure_containment[where thr = no_throw and p = example_pending
      and inject = None and outcome = "Rejected (OtherValue ''x'')"
      and err = "OtherValue ''x''" and w = example_world_started and ?thr0.0 = no_throw
      and ?el0.0 = fresh_block and cfg = chatgpt_config and ?w0.0 = example_world
      and ?w1.0 = example_world_started]
  note T6 = failure_containment[where thr = no_throw and p = example_pending
      and inject = "Some (OtherValue ''y'')" and outcome = "Resolved example_svg"
      and err = "OtherValue ''y''" and w = example_world_started and ?thr0.0 = no_throw
      and ?el0.0 = fresh_block and cfg = chatgpt_config and ?w0.0 = example_world
      and ?w1.0 = example_world_started]
  have 1: "renderMermaidBlock_start (throws_at ExtractSource) fresh_block chatgpt_config
             example_world = (Finished None, example_world)"
    using T1 b by blast
  have 2: "renderMermaidBlock_start (throws_at BuildWrapper) fresh_block chatgpt_config
             example_world = (Finished None, example_world)"
    using T2 t(1) by blast
  have 3: "fst (renderMermaidBlock_resume (throws_at Commit) None example_pending
             (Resolved example_svg) example_world_started) = None \<and>
      document (snd (renderMermaidBlock_resume (throws_at Commit) None example_pending
                    (Resolved example_svg) example_world_started)) =
        document example_world_started"
    using T3 t(2) i(1) by blast
  have rn: "renderMermaidBlock_resume (throws_at Commit) None example_pending
      (Resolved example_svg) example_world_started =
      (None, example_world_started\<lparr>nextRef := 105\<rparr>)"
    using T3 rb by blast
  have 4: "fst (renderMermaidBlock_resume (throws_at FormatError) None example_pending
          (Rejected (OtherValue ''x'')) example_world_started) = None"
    using T4 t(3) i(2) by blast
  have 5: "fst (renderMermaidBlock_resume no_throw None example_pending
          (Rejected (OtherValue ''x'')) example_world_started) \<noteq> None"
    using T5 example_start n i(2) by blast
  have 6: "fst (renderMermaidBlock_resume no_throw (Some (OtherValue ''y'')) example_pending
          (Resolved example_svg) example_world_started) \<noteq> None"
    using T6 example_start n i(3) by blast
  show ?thesis
    using b 1 t 2 3 rn 4 example_start n 5 6 i rb by blast
qed

text \<open>
  The claim as first stated fails for the exception of the render call itself: it is
  caught before the boundary of the function, and an artifact is produced.
\<close>

theorem render_rejection_counterexample:
  "fst (renderMermaidBlock no_throw None (Rejected (ErrorObject ''Parse error on line 1''))
          fresh_block chatgpt_config example_world) \<noteq> None"
proof -
  have w: "p_wrapper example_pending = createPreservingWrapper 100 ''graph TD; A-->B;''"
    by (simp add: example_pending_def)
  have i: "inner_try None (Rejected (ErrorObject ''Parse error on line 1'')) =
      Inl (ErrorObject ''Parse error on line 1'')"
    by (simp add: inner_try_def)
  show ?thesis
    by (simp add: renderMermaidBlock_def example_start resume_error_result[OF w i] no_throw_def)
qed

text \<open>
  Claim C5 does not hold of the code. Each delivery of mutation records asks for one more
  animation-frame callback, and the frame runs one sweep per callback: after two
  deliveries the next frame runs two sweeps, and each of them starts a render of the
  same block.
\<close>

theorem one_sweep_per_observer_callback:
  "length (fst (animation_frame thrs cfg w)) = frameCallbacks w \<and>
   frameCallbacks (observer_callback (observer_callback w)) = frameCallbacks w + 2 \<and>
   map (map dispatched)
     (fst (animation_frame (\<lambda>b. no_throw) chatgpt_config
             (observer_callback (observer_callback example_world)))) =
     [[Some (fresh_block, ''graph TD; A-->B;'')], [Some (fresh_block, ''graph TD; A-->B;'')]]"
proof -
  have e: "extractSourceCode fresh_block chatgpt_config = ''graph TD; A-->B;''" by code_simp
  have sweep: "map dispatched (fst (processExistingBlocks (\<lambda>b. no_throw) chatgpt_config v)) =
      [Some (fresh_block, ''graph TD; A-->B;'')] \<and>
      document (snd (processExistingBlocks (\<lambda>b. no_throw) chatgpt_config v)) = example_page"
    if "document v = example_page" for v
    using dispatch_all_view[of "\<lambda>b. no_throw" chatgpt_config "[fresh_block]" v] that
    by (simp add: processExistingBlocks_def example_find e no_throw_def)
  let ?w = "(observer_callback (observer_callback example_world))\<lparr>frameCallbacks := 0\<rparr>"
  obtain s1 v1 where p1: "processExistingBlocks (\<lambda>b. no_throw) chatgpt_config ?w = (s1, v1)"
    by (cases "processExistingBlocks (\<lambda>b. no_throw) chatgpt_config ?w")
  obtain s2 v2 where p2: "processExistingBlocks (\<lambda>b. no_throw) chatgpt_config v1 = (s2, v2)"
    by (cases "processExistingBlocks (\<lambda>b. no_throw) chatgpt_config v1")
  have d0: "document ?w = example_page"
    by (simp add: observer_callback_def example_world_def)
  have r1: "map dispatched s1 = [Some (fresh_block, ''graph TD; A-->B;'')]" "document v1 = example_page"
    using sweep[OF d0] p1 by simp_all
  have r2: "map dispatched s2 = [Some (fresh_block, ''graph TD; A-->B;'')]"
    using sweep[OF r1(2)] p2 by simp
  have f: "frameCallbacks (observer_callback (observer_callback example_world)) = Suc (Suc 0)"
    by (simp add: observer_callback_def example_world_def)
  have "fst (animation_frame (\<lambda>b. no_throw) chatgpt_config
             (observer_callback (observer_callback example_world))) = [s1, s2]"
    by (simp add: animation_frame_def f p1 p2)
  then show ?thesis
    using r1(1) r2
    by (simp add: animation_frame_def run_frame_callbacks_length observer_callback_def)
qed

end
